theory Spec2Isabelle
  imports Complex_Main
begin

section \<open>JavaScript values used by the download utility\<close>

subsection \<open>Strings\<close>

text \<open>
  Strings are lists of \<^typ>\<open>char\<close>, read as code units below 256. Of the characters
  that \<^verbatim>\<open>String.prototype.trim\<close> strips (white space and line terminators), these
  are the ones in that range: TAB, LF, VT, FF, CR, SPACE and NBSP.
\<close>

definition isWhiteSpace :: "char \<Rightarrow> bool" where
  "isWhiteSpace c \<longleftrightarrow>
     c \<in> set [CHR 0x09, CHR 0x0A, CHR 0x0B, CHR 0x0C, CHR 0x0D, CHR 0x20, CHR 0xA0]"

definition trim :: "string \<Rightarrow> string" where
  "trim s = rev (dropWhile isWhiteSpace (rev (dropWhile isWhiteSpace s)))"

definition endsWith :: "string \<Rightarrow> string \<Rightarrow> bool" where
  "endsWith s t \<longleftrightarrow> length t \<le> length s \<and> drop (length s - length t) s = t"

text \<open>
  \<^verbatim>\<open>s.lastIndexOf(c)\<close> for a one-character search string: the index of the last
  occurrence, or \<open>-1\<close>.
\<close>

definition lastIndexOf :: "string \<Rightarrow> char \<Rightarrow> int" where
  "lastIndexOf s c =
     (if c \<in> set s then int (length s) - 1 - int (length (takeWhile (\<lambda>x. x \<noteq> c) (rev s)))
      else - 1)"

text \<open>\<^verbatim>\<open>s.substring(a, b)\<close> and \<^verbatim>\<open>s.substring(a)\<close> for \<open>0 \<le> a \<le> b\<close>.\<close>

definition substring :: "string \<Rightarrow> nat \<Rightarrow> nat \<Rightarrow> string" where
  "substring s a b = take (b - a) (drop a s)"

definition substring_from :: "string \<Rightarrow> nat \<Rightarrow> string" where
  "substring_from s a = drop a s"

text \<open>Decimal rendering of a non-negative integer, as a template literal inserts it.\<close>

definition digit_char :: "nat \<Rightarrow> char" where
  "digit_char d = ''0123456789'' ! d"

function string_of_nat :: "nat \<Rightarrow> string" where
  "string_of_nat n =
     (if n < 10 then [digit_char n] else string_of_nat (n div 10) @ [digit_char (n mod 10)])"
  by pat_completeness auto
termination
  by (relation "measure id") auto

declare string_of_nat.simps [simp del]

subsection \<open>Numbers that may be non-finite\<close>

text \<open>
  A JavaScript number is either NaN, an infinity or a finite value. Finite values are kept
  as exact rationals: the rounding of finite doubles is not modelled, the outcome of a
  division by zero is.
\<close>

datatype jsnum = Finite rat | PosInf | NegInf | NaN

text \<open>\<^verbatim>\<open>a / b\<close> for finite operands, the divisor being \<open>+0\<close> when it is zero.\<close>

definition js_div :: "rat \<Rightarrow> rat \<Rightarrow> jsnum" where
  "js_div a b =
     (if b = 0 then (if a = 0 then NaN else if 0 < a then PosInf else NegInf)
      else Finite (a / b))"

text \<open>
  \<^verbatim>\<open>x.toFixed(2)\<close>: the hundredths nearest to \<open>x\<close> (the larger one on a tie), as a
  count of hundredths of the absolute value, as the number the resulting string denotes,
  and as the string itself. This is \<^verbatim>\<open>toFixed\<close> below \<open>10\<^sup>2\<^sup>1\<close> in magnitude, where
  it does not switch to exponent notation.
\<close>

definition hundredths :: "rat \<Rightarrow> nat" where
  "hundredths x = nat \<lfloor>\<bar>x\<bar> * 100 + 1 / 2\<rfloor>"

definition toFixed2_value :: "rat \<Rightarrow> rat" where
  "toFixed2_value x = (if x < 0 then - 1 else 1) * of_nat (hundredths x) / 100"

definition toFixed2 :: "jsnum \<Rightarrow> string" where
  "toFixed2 x =
     (case x of
        NaN \<Rightarrow> ''NaN''
      | PosInf \<Rightarrow> ''Infinity''
      | NegInf \<Rightarrow> ''-Infinity''
      | Finite q \<Rightarrow>
          (let n = hundredths q
           in (if q < 0 then ''-'' else '''') @ string_of_nat (n div 100) @ ''.'' @
              [digit_char (n mod 100 div 10), digit_char (n mod 10)]))"

text \<open>
  \<^verbatim>\<open>parseInt(s, 10)\<close>: leading white space, an optional sign, then the longest run
  of decimal digits; \<open>None\<close> is NaN.
\<close>

definition isDigit :: "char \<Rightarrow> bool" where
  "isDigit c \<longleftrightarrow> c \<in> set ''0123456789''"

definition digit_value :: "char \<Rightarrow> nat" where
  "digit_value c = length (takeWhile (\<lambda>d. d \<noteq> c) ''0123456789'')"

definition nat_of_digits :: "string \<Rightarrow> nat" where
  "nat_of_digits ds = foldl (\<lambda>acc c. 10 * acc + digit_value c) 0 ds"

definition parseInt10 :: "string \<Rightarrow> int option" where
  "parseInt10 s =
     (let t = dropWhile isWhiteSpace s;
          neg = (case t of [] \<Rightarrow> False | c # _ \<Rightarrow> c = CHR ''-'');
          u = (case t of [] \<Rightarrow> [] | c # r \<Rightarrow> if c = CHR ''-'' \<or> c = CHR ''+'' then r else t);
          ds = takeWhile isDigit u
      in if ds = [] then None
         else Some ((if neg then - 1 else 1) * int (nat_of_digits ds)))"

subsection \<open>Errors\<close>

text \<open>
  The error classes of \<^verbatim>\<open>errors/download-errors\<close>. \<open>Error m\<close> is a plain
  \<^verbatim>\<open>new Error(m)\<close>, and also stands for whatever a collaborator throws; the other
  constructors carry the fields their JavaScript constructors set, the original error last.
\<close>

datatype error =
    Error string
  | FetchError string string error
  | FileSystemError string string error
  | DownloadFailedError string string string error

fun message :: "error \<Rightarrow> string" where
  "message (Error m) = m"
| "message (FetchError m _ _) = m"
| "message (FileSystemError m _ _) = m"
| "message (DownloadFailedError m _ _ _) = m"

fun code :: "error \<Rightarrow> string option" where
  "code (Error _) = None"
| "code (FetchError _ _ _) = Some ''FETCH_ERROR''"
| "code (FileSystemError _ _ _) = Some ''FILE_SYSTEM_ERROR''"
| "code (DownloadFailedError _ _ _ _) = Some ''DOWNLOAD_FAILED''"

fun originalError :: "error \<Rightarrow> error option" where
  "originalError (Error _) = None"
| "originalError (FetchError _ _ e) = Some e"
| "originalError (FileSystemError _ _ e) = Some e"
| "originalError (DownloadFailedError _ _ _ e) = Some e"

section \<open>The world outside the library\<close>

text \<open>
  Everything the library calls and does not define: \<^verbatim>\<open>axios\<close>, \<^verbatim>\<open>fs\<close>,
  \<^verbatim>\<open>path\<close>, \<^verbatim>\<open>cli-progress\<close>, the path and duration helpers, the console. The
  state of the world is the list of the calls made so far, oldest first, and the world
  answers a call as a function of that history, so that any deterministic behaviour of the
  collaborators is covered. Reading the file system, the clock or the random generator
  leaves the history as it is. A collaborator that can throw answers with an error;
  \<^verbatim>\<open>make_dir\<close> otherwise answers with the truth value of what it returns. The console
  (\<^verbatim>\<open>consoleMessages\<close> and \<^verbatim>\<open>console.error\<close>) takes its line and never throws.
\<close>

datatype stream_event =
    Data nat
  | End
  | StreamError error
  | WriteError error

text \<open>
  What \<^verbatim>\<open>axios.get\<close> hands back as \<^verbatim>\<open>response.data\<close>: the content-length
  header, if any, and the events the stream will emit, in order. A \<open>Data n\<close> event is a
  chunk of \<open>n\<close> bytes; \<open>WriteError\<close> is the error event of the write stream it is piped
  into.
\<close>

record response_data =
  content_length :: "string option"
  events :: "stream_event list"

datatype "call" =
    AxiosGet string nat
  | MakeDir string
  | CreateWriteStream string
  | BarStart string nat
  | BarUpdate rat string string
  | BarStop
  | ConsoleMessagesError string
  | ConsoleMessagesNormal string
  | ConsoleMessagesSucces string
  | ConsoleError string

type_synonym world = "call list"

datatype platform = Posix | Win32

record env =
  platform :: platform
  axios_get :: "world \<Rightarrow> string \<Rightarrow> nat \<Rightarrow> error + response_data"
  make_dir :: "world \<Rightarrow> string \<Rightarrow> error + bool"
  existsSync :: "world \<Rightarrow> string \<Rightarrow> bool"
  createWriteStream :: "world \<Rightarrow> string \<Rightarrow> error option"
  date_now :: "world \<Rightarrow> nat"
  math_random_base36 :: "world \<Rightarrow> string"
  single_bar_start :: "world \<Rightarrow> string \<Rightarrow> nat \<Rightarrow> error option"
  single_bar_update :: "world \<Rightarrow> rat \<Rightarrow> string \<Rightarrow> string \<Rightarrow> error option"
  single_bar_stop :: "world \<Rightarrow> error option"
  secondsToDuration :: "jsnum \<Rightarrow> error + string"

text \<open>\<^verbatim>\<open>path.sep\<close>.\<close>

definition sep :: "env \<Rightarrow> string" where
  "sep E = (case platform E of Posix \<Rightarrow> ''/'' | Win32 \<Rightarrow> [CHR 0x5C])"

section \<open>FileManager\<close>

text \<open>
  \<^verbatim>\<open>ensureDirectoryExists\<close>: \<open>Inl\<close> is the \<^verbatim>\<open>FileSystemError\<close> thrown when
  \<^verbatim>\<open>make_dir\<close> throws.
\<close>

definition ensureDirectoryExists :: "env \<Rightarrow> string \<Rightarrow> world \<Rightarrow> (error + bool) \<times> world" where
  "ensureDirectoryExists E dirPath w =
     (if trim dirPath = '''' then (Inr True, w)
      else
        (case make_dir E w dirPath of
           Inl error \<Rightarrow>
             (Inl (FileSystemError (''Failed to create directory: '' @ dirPath) dirPath error),
              w @ [MakeDir dirPath])
         | Inr b \<Rightarrow> (Inr b, w @ [MakeDir dirPath])))"

definition normalizeDirPath :: "env \<Rightarrow> string \<Rightarrow> string" where
  "normalizeDirPath E dirPath =
     (if trim dirPath = '''' then ''''
      else if endsWith (trim dirPath) (sep E) then trim dirPath
      else trim dirPath @ sep E)"

text \<open>
  The two parts \<^verbatim>\<open>generateUniqueFilename\<close> cuts a file name into, at its last dot:
  the locals \<^verbatim>\<open>baseName\<close> and \<^verbatim>\<open>extension\<close>.
\<close>

definition baseName_of :: "string \<Rightarrow> string" where
  "baseName_of fileName =
     (let lastDotIndex = lastIndexOf fileName (CHR ''.'')
      in if lastDotIndex \<noteq> - 1 then substring fileName 0 (nat lastDotIndex) else fileName)"

definition extension_of :: "string \<Rightarrow> string" where
  "extension_of fileName =
     (let lastDotIndex = lastIndexOf fileName (CHR ''.'')
      in if lastDotIndex \<noteq> - 1 then substring_from fileName (nat lastDotIndex) else '''')"

text \<open>The candidate \<^verbatim>\<open>`${baseName}-(${counter})${extension}`\<close> of the counter strategy.\<close>

definition counterName :: "string \<Rightarrow> string \<Rightarrow> nat \<Rightarrow> string" where
  "counterName baseName extension counter =
     baseName @ ''-('' @ string_of_nat counter @ '')'' @ extension"

text \<open>
  The \<^verbatim>\<open>do ... while (existsSync(...))\<close> loop of the counter strategy. It has no
  bound in the source; \<open>None\<close> is the loop that never ends.
\<close>

partial_function (option) counter_loop ::
  "env \<Rightarrow> world \<Rightarrow> string \<Rightarrow> string \<Rightarrow> string \<Rightarrow> nat \<Rightarrow> string option" where
  "counter_loop E w normalizedPath baseName extension counter =
     (let uniqueName = counterName baseName extension counter
      in if existsSync E w (normalizedPath @ uniqueName)
         then counter_loop E w normalizedPath baseName extension (counter + 1)
         else Some uniqueName)"

declare counter_loop.simps [code]

definition generateUniqueFilename ::
  "env \<Rightarrow> string \<Rightarrow> string \<Rightarrow> string \<Rightarrow> world \<Rightarrow> string option" where
  "generateUniqueFilename E dirPath fileName strategy w =
     (let normalizedPath = normalizeDirPath E dirPath;
          fullPath = normalizedPath @ fileName
      in if \<not> existsSync E w fullPath then Some fileName
         else
           (let baseName = baseName_of fileName;
                extension = extension_of fileName
            in if strategy = ''timestamp''
               then Some (baseName @ ''-'' @ string_of_nat (date_now E w) @ extension)
               else if strategy = ''counter''
               then counter_loop E w normalizedPath baseName extension 1
               else if strategy = ''random''
               then (let randomStr = substring (math_random_base36 E w) 2 8
                     in Some (baseName @ ''-'' @ randomStr @ extension))
               else Some (baseName @ ''-'' @ string_of_nat (date_now E w) @ extension)))"

text \<open>\<^verbatim>\<open>createFileWriteStream\<close>: \<open>Inl\<close> is the \<^verbatim>\<open>FileSystemError\<close> thrown.\<close>

definition createFileWriteStream :: "env \<Rightarrow> string \<Rightarrow> world \<Rightarrow> (error + unit) \<times> world" where
  "createFileWriteStream E filePath w =
     (case createWriteStream E w filePath of
        Some error \<Rightarrow>
          (Inl (FileSystemError (''Failed to create write stream for file: '' @ filePath)
                  filePath error),
           w @ [CreateWriteStream filePath])
      | None \<Rightarrow> (Inr (), w @ [CreateWriteStream filePath]))"

section \<open>ProgressBar\<close>

text \<open>
  The fields a \<^verbatim>\<open>ProgressBar\<close> object holds beside its render surface (the
  \<^verbatim>\<open>SingleBar\<close>, which lives in the world). \<open>totalSizeMB\<close> is the number that the
  stored \<^verbatim>\<open>toFixed(2)\<close> string denotes. Constructing the object makes no call that
  the history records and is taken not to throw.
\<close>

record progress_bar =
  totalSize :: nat
  startTime :: nat
  totalSizeMB :: rat
  isActive :: bool

definition ProgressBar :: progress_bar where
  "ProgressBar = \<lparr>totalSize = 0, startTime = 0, totalSizeMB = 0, isActive = False\<rparr>"

text \<open>
  \<^verbatim>\<open>start(data, barNumber)\<close>. The call recorded for \<^verbatim>\<open>bar.start\<close> keeps the
  total and the bar number; its other arguments are constants.
\<close>

definition start ::
  "env \<Rightarrow> progress_bar \<Rightarrow> response_data \<Rightarrow> nat \<Rightarrow> world \<Rightarrow> (error + unit) \<times> progress_bar \<times> world" where
  "start E this data barNumber w =
     (if isActive this then (Inl (Error ''Progress bar is already active''), this, w)
      else
        (let this1 = this\<lparr>totalSize := 0, startTime := date_now E w, isActive := True\<rparr>;
             contentLength =
               (case content_length data of
                  None \<Rightarrow> 0
                | Some s \<Rightarrow> (case parseInt10 s of None \<Rightarrow> 0 | Some n \<Rightarrow> n));
             total = (of_int contentLength / (1024 * 1024) :: rat);
             this2 = this1\<lparr>totalSizeMB := toFixed2_value total\<rparr>;
             w1 = w @ [BarStart (toFixed2 (Finite total)) barNumber]
         in case single_bar_start E w (toFixed2 (Finite total)) barNumber of
              Some error \<Rightarrow>
                (Inl (Error (''Failed to start progress bar: '' @ message error)),
                 this2\<lparr>isActive := False\<rparr>, w1)
            | None \<Rightarrow> (Inr (), this2, w1)))"

text \<open>
  The locals of \<^verbatim>\<open>update\<close>, as functions of the byte count after the chunk is added
  and of the clock: \<^verbatim>\<open>downloadedSizeMB\<close>, \<^verbatim>\<open>elapsedTime\<close>,
  \<^verbatim>\<open>remainingSizeMB\<close> and \<^verbatim>\<open>estimatedTimeRemaining\<close>.
\<close>

definition downloadedSizeMB :: "progress_bar \<Rightarrow> rat" where
  "downloadedSizeMB this = toFixed2_value (of_nat (totalSize this) / (1024 * 1024))"

definition elapsedTime :: "progress_bar \<Rightarrow> nat \<Rightarrow> rat" where
  "elapsedTime this now = (of_nat now - of_nat (startTime this)) / 1000"

definition remainingSizeMB :: "progress_bar \<Rightarrow> rat" where
  "remainingSizeMB this = totalSizeMB this - downloadedSizeMB this"

definition estimatedTimeRemaining :: "progress_bar \<Rightarrow> nat \<Rightarrow> jsnum" where
  "estimatedTimeRemaining this now =
     js_div (remainingSizeMB this * elapsedTime this now) (downloadedSizeMB this)"

text \<open>
  \<^verbatim>\<open>update(chunk)\<close>, for a chunk of \<open>n\<close> bytes. Whatever is thrown inside its
  \<^verbatim>\<open>try\<close>, by the duration helper or by the render surface, is caught and written to
  \<^verbatim>\<open>console.error\<close>; when the helper throws, \<^verbatim>\<open>bar.update\<close> is not called. The
  speed and the estimate are computed on exact rationals, so a digit of what the bar is
  handed can differ from what IEEE doubles give.
\<close>

definition update :: "env \<Rightarrow> progress_bar \<Rightarrow> nat \<Rightarrow> world \<Rightarrow> progress_bar \<times> world" where
  "update E this n w =
     (if \<not> isActive this then (this, w)
      else
        (let this1 = this\<lparr>totalSize := totalSize this + n\<rparr>;
             speed = toFixed2 (js_div (downloadedSizeMB this1) (elapsedTime this1 (date_now E w)))
         in case secondsToDuration E (estimatedTimeRemaining this1 (date_now E w)) of
              Inl error \<Rightarrow>
                (this1, w @ [ConsoleError (''Progress bar update error: '' @ message error)])
            | Inr eta \<Rightarrow>
                (let w1 = w @ [BarUpdate (downloadedSizeMB this1) speed eta]
                 in case single_bar_update E w (downloadedSizeMB this1) speed eta of
                      Some error \<Rightarrow>
                        (this1,
                         w1 @ [ConsoleError (''Progress bar update error: '' @ message error)])
                    | None \<Rightarrow> (this1, w1))))"

text \<open>
  \<^verbatim>\<open>stop()\<close>. The handler of its \<^verbatim>\<open>try\<close> catches everything and only writes to
  the console, and the \<^verbatim>\<open>finally\<close> clause clears the flag on both paths.
\<close>

definition stop :: "env \<Rightarrow> progress_bar \<Rightarrow> world \<Rightarrow> progress_bar \<times> world" where
  "stop E this w =
     (if isActive this then
        (case single_bar_stop E w of
           Some error \<Rightarrow>
             (this\<lparr>isActive := False\<rparr>,
              w @ [BarStop, ConsoleError (''Error stopping progress bar: '' @ message error)])
         | None \<Rightarrow> (this\<lparr>isActive := False\<rparr>, w @ [BarStop]))
      else (this, w))"

section \<open>Download\<close>

text \<open>
  The option objects, each field \<open>f\<close> of the source as \<open>opt_f\<close> (\<open>ctor_f\<close> for the
  constructor's). A field that is absent (or \<^verbatim>\<open>undefined\<close>) is \<open>None\<close>, and
  destructuring puts the default in its place.
\<close>

record download_one_options =
  opt_path :: "string option"
  opt_fileName :: "string option"
  opt_downloadNumber :: "nat option"
  opt_fileNamingStrategy :: "string option"

record download_many_options = download_one_options +
  opt_url :: string

record constructor_options =
  ctor_timeout :: "nat option"
  ctor_fileNamingStrategy :: "string option"

text \<open>The fields of a \<^verbatim>\<open>Download\<close> object that the transfers read.\<close>

record download =
  timeout :: nat
  this_fileNamingStrategy :: string

definition Download :: "constructor_options \<Rightarrow> download" where
  "Download options =
     \<lparr>timeout = (case ctor_timeout options of None \<Rightarrow> 5000 | Some t \<Rightarrow> t),
      this_fileNamingStrategy =
        (case ctor_fileNamingStrategy options of None \<Rightarrow> ''timestamp'' | Some s \<Rightarrow> s)\<rparr>"

text \<open>The result objects \<^verbatim>\<open>{success: true, filePath}\<close> and \<^verbatim>\<open>{success: false, error}\<close>.\<close>

datatype outcome = Success string | Failure error

fun success :: "outcome \<Rightarrow> bool" where
  "success (Success _) = True"
| "success (Failure _) = False"

text \<open>
  What becomes of the promise an \<^verbatim>\<open>async\<close> method returns: it is fulfilled, it is
  rejected (the method threw), or it never settles.
\<close>

datatype 'a promise = Resolved 'a | Rejected error | Pending

definition fetchData :: "env \<Rightarrow> download \<Rightarrow> string \<Rightarrow> world \<Rightarrow> (error + response_data) \<times> world" where
  "fetchData E this url w =
     (case axios_get E w url (timeout this) of
        Inl error \<Rightarrow>
          (Inl (FetchError (''Failed to fetch data from URL: '' @ url) url error),
           w @ [AxiosGet url (timeout this)])
      | Inr data \<Rightarrow> (Inr data, w @ [AxiosGet url (timeout this)]))"

text \<open>
  The three handlers that settle the promise of \<^verbatim>\<open>downloadOne\<close>, and the
  \<^verbatim>\<open>data\<close> handler, run over the events of the stream up to the first one that
  resolves. A stream that emits neither \<^verbatim>\<open>end\<close> nor an error leaves the promise
  pending.
\<close>

fun on_events ::
  "env \<Rightarrow> string \<Rightarrow> string \<Rightarrow> progress_bar \<Rightarrow> stream_event list \<Rightarrow> world \<Rightarrow> outcome promise \<times> world" where
  "on_events E url filePath progressBar [] w = (Pending, w)"
| "on_events E url filePath progressBar (Data n # evs) w =
     (case update E progressBar n w of
        (progressBar', w') \<Rightarrow> on_events E url filePath progressBar' evs w')"
| "on_events E url filePath progressBar (End # evs) w =
     (case stop E progressBar w of
        (progressBar', w') \<Rightarrow>
          (Resolved (Success filePath),
           w' @ [ConsoleMessagesSucces
                   (''Download completed.'' @ [CHR 0x0A] @ ''File saved at: '' @ [CHR 0x27] @
                    filePath @ [CHR 0x27])]))"
| "on_events E url filePath progressBar (StreamError err # evs) w =
     (case stop E progressBar w of
        (progressBar', w') \<Rightarrow>
          (let error = DownloadFailedError (''Download failed for URL: '' @ url) url filePath err
           in (Resolved (Failure error),
               w' @ [ConsoleMessagesError
                       (message error @ [CHR 0x0A] @ ''Error details: '' @ message err)])))"
| "on_events E url filePath progressBar (WriteError err # evs) w =
     (case stop E progressBar w of
        (progressBar', w') \<Rightarrow>
          (let error = DownloadFailedError (''Failed to write file: '' @ filePath) url filePath err
           in (Resolved (Failure error),
               w' @ [ConsoleMessagesError
                       (message error @ [CHR 0x0A] @ ''Error details: '' @ message err)])))"

text \<open>
  The promise of \<^verbatim>\<open>downloadOne\<close> as the stream alone decides it: the first event that
  is not a chunk settles it.
\<close>

fun settle :: "string \<Rightarrow> string \<Rightarrow> stream_event list \<Rightarrow> outcome promise" where
  "settle url filePath [] = Pending"
| "settle url filePath (Data n # evs) = settle url filePath evs"
| "settle url filePath (End # evs) = Resolved (Success filePath)"
| "settle url filePath (StreamError err # evs) =
     Resolved (Failure (DownloadFailedError (''Download failed for URL: '' @ url) url filePath err))"
| "settle url filePath (WriteError err # evs) =
     Resolved (Failure (DownloadFailedError (''Failed to write file: '' @ filePath) url filePath err))"

text \<open>
  The outer \<^verbatim>\<open>try\<close> block of \<^verbatim>\<open>downloadOne\<close>. It returns a promise, or throws
  (the second component is the variable \<^verbatim>\<open>progressBar\<close> at that moment, \<open>None\<close> for
  \<^verbatim>\<open>null\<close>), or does not come back from the counter loop.
\<close>

datatype try_result =
    Returned "outcome promise"
  | Threw error "progress_bar option"
  | Diverged

definition try_block ::
  "env \<Rightarrow> download \<Rightarrow> string \<Rightarrow> string \<Rightarrow> string \<Rightarrow> nat \<Rightarrow> string \<Rightarrow> world \<Rightarrow> try_result \<times> world" where
  "try_block E this url path fileName downloadNumber fileNamingStrategy w =
     (case fetchData E this url w of
        (Inl error, w1) \<Rightarrow>
          (Returned (Resolved (Failure error)),
           w1 @ [ConsoleMessagesError
                   (message error @ [CHR 0x0A] @ ''Error details: '' @
                    (case originalError error of
                       None \<Rightarrow> ''Unknown error''
                     | Some e \<Rightarrow> if message e = '''' then ''Unknown error'' else message e))])
      | (Inr dataStream, w1) \<Rightarrow>
          (case ensureDirectoryExists E path w1 of
             (Inl error, w2) \<Rightarrow> (Threw error None, w2)
           | (Inr False, w2) \<Rightarrow>
               (Returned (Resolved (Failure (Error (''Failed to create directory: '' @ path)))),
                w2 @ [ConsoleMessagesError (''Failed to create directory: '' @ path)])
           | (Inr True, w2) \<Rightarrow>
               (let normalizedPath = normalizeDirPath E path
                in case generateUniqueFilename E normalizedPath fileName fileNamingStrategy w2 of
                     None \<Rightarrow> (Diverged, w2)
                   | Some uniqueFileName \<Rightarrow>
                       (let filePath = normalizedPath @ uniqueFileName
                        in case start E ProgressBar dataStream downloadNumber w2 of
                             (Inl error, progressBar, w3) \<Rightarrow> (Threw error (Some progressBar), w3)
                           | (Inr _, progressBar, w3) \<Rightarrow>
                               (case createFileWriteStream E filePath w3 of
                                  (Inl error, w4) \<Rightarrow> (Threw error (Some progressBar), w4)
                                | (Inr _, w4) \<Rightarrow>
                                    (case on_events E url filePath progressBar
                                            (events dataStream) w4 of
                                       (p, w5) \<Rightarrow> (Returned p, w5)))))))"

text \<open>
  \<^verbatim>\<open>downloadOne(url, options)\<close> for an options object, which is what
  \<^verbatim>\<open>downloadMany\<close> passes: the defaults, the \<^verbatim>\<open>try\<close> block and its
  \<^verbatim>\<open>catch\<close> handler.
\<close>

definition downloadOne ::
  "env \<Rightarrow> download \<Rightarrow> string \<Rightarrow> download_one_options \<Rightarrow> world \<Rightarrow> outcome promise \<times> world" where
  "downloadOne E this url options w =
     (let path = (case opt_path options of None \<Rightarrow> '''' | Some p \<Rightarrow> p);
          fileName = (case opt_fileName options of None \<Rightarrow> ''file'' | Some f \<Rightarrow> f);
          downloadNumber = (case opt_downloadNumber options of None \<Rightarrow> 1 | Some n \<Rightarrow> n);
          fileNamingStrategy =
            (case opt_fileNamingStrategy options of
               None \<Rightarrow> this_fileNamingStrategy this
             | Some s \<Rightarrow> s)
      in case try_block E this url path fileName downloadNumber fileNamingStrategy w of
           (Returned p, w1) \<Rightarrow> (p, w1)
         | (Diverged, w1) \<Rightarrow> (Pending, w1)
         | (Threw error progressBar, w1) \<Rightarrow>
             (let w2 = (case progressBar of None \<Rightarrow> w1 | Some pb \<Rightarrow> snd (stop E pb w1))
              in (Resolved (Failure error),
                  w2 @ [ConsoleMessagesError
                          (''Error downloading from URL: '' @ url @ [CHR 0x0A] @
                           ''Error details: '' @ message error)])))"




text \<open>
  An argument of \<^verbatim>\<open>downloadMany\<close>: an options object, or one of the two values that
  cannot be destructured.
\<close>

datatype jsarg = Undefined | Null | Obj download_many_options

datatype loop_result =
    Completed "outcome list"
  | Thrown error "outcome list"
  | Stuck

text \<open>
  The \<^verbatim>\<open>for\<close> loop of \<^verbatim>\<open>downloadMany\<close>, from index \<open>i\<close> on; \<open>results\<close> is the
  array filled so far. Awaiting a rejected promise throws; awaiting one that never settles
  never continues.
\<close>

fun downloadMany_loop ::
  "env \<Rightarrow> download \<Rightarrow> nat \<Rightarrow> outcome list \<Rightarrow> jsarg list \<Rightarrow> world \<Rightarrow> loop_result \<times> world" where
  "downloadMany_loop E this i results [] w = (Completed results, w)"
| "downloadMany_loop E this i results (Undefined # rest) w =
     (Thrown (Error (''Cannot destructure property '' @ [CHR 0x27] @ ''url'' @ [CHR 0x27] @ '' of '' @
                     [CHR 0x27] @ ''options'' @ [CHR 0x27] @ '' as it is undefined.'')) results, w)"
| "downloadMany_loop E this i results (Null # rest) w =
     (Thrown (Error (''Cannot destructure property '' @ [CHR 0x27] @ ''url'' @ [CHR 0x27] @ '' of '' @
                     [CHR 0x27] @ ''options'' @ [CHR 0x27] @ '' as it is null.'')) results, w)"
| "downloadMany_loop E this i results (Obj options # rest) w =
     (let url = opt_url options;
          path = (case opt_path options of None \<Rightarrow> '''' | Some p \<Rightarrow> p);
          fileName = (case opt_fileName options of None \<Rightarrow> ''file'' | Some f \<Rightarrow> f);
          downloadNumber = i + 1
      in case downloadOne E this url
                \<lparr>opt_path = Some path, opt_fileName = Some fileName,
                 opt_downloadNumber = Some downloadNumber,
                 opt_fileNamingStrategy = None\<rparr> w of
           (Resolved result, w1) \<Rightarrow> downloadMany_loop E this (i + 1) (results @ [result]) rest w1
         | (Rejected error, w1) \<Rightarrow> (Thrown error results, w1)
         | (Pending, w1) \<Rightarrow> (Stuck, w1))"

definition downloadMany ::
  "env \<Rightarrow> download \<Rightarrow> jsarg list \<Rightarrow> world \<Rightarrow> outcome list promise \<times> world" where
  "downloadMany E this downloadOptions w =
     (let totalDownloads = length downloadOptions;
          w0 = w @ [ConsoleMessagesNormal
                      (''Starting download of '' @ string_of_nat totalDownloads @ '' file'' @
                       (if totalDownloads > 1 then ''s'' else '''') @ ''.'')]
      in case downloadMany_loop E this 0 [] downloadOptions w0 of
           (Completed results, w1) \<Rightarrow>
             (let successCount = length (filter success results)
              in (Resolved results,
                  w1 @ [ConsoleMessagesNormal
                          (''Download summary: '' @ string_of_nat successCount @ ''/'' @
                           string_of_nat totalDownloads @ '' files downloaded successfully.'')]))
         | (Thrown error results, w1) \<Rightarrow>
             (Resolved results,
              w1 @ [ConsoleMessagesError (''Error in batch download: '' @ message error)])
         | (Stuck, w1) \<Rightarrow> (Pending, w1))"

section \<open>Worlds in which every transfer settles\<close>

text \<open>
  Every stream that \<^verbatim>\<open>axios.get\<close> hands back ends or fails at some point, and the file
  system holds finitely many paths.
\<close>

definition ends_or_fails :: "stream_event list \<Rightarrow> bool" where
  "ends_or_fails evs = (\<exists>ev\<in>set evs. case ev of Data _ \<Rightarrow> False | _ \<Rightarrow> True)"

definition settles_always :: "env \<Rightarrow> bool" where
  "settles_always E \<longleftrightarrow>
     (\<forall>w url t data. axios_get E w url t = Inr data \<longrightarrow> ends_or_fails (events data)) \<and>
     (\<forall>w. finite {p. existsSync E w p})"

section \<open>An example world\<close>

text \<open>
  A small world to run the library in. Three files are there from the start, and a file is
  there once a write stream has been opened on it. One URL serves two megabytes in two
  chunks, one breaks off after ten bytes, the others cannot be fetched. The
  directory \<^verbatim>\<open>/denied\<close> cannot be created, and \<^verbatim>\<open>/refused\<close> is reported as
  not created.
\<close>

definition example_files :: "string list" where
  "example_files = [''./out/a.txt'', ''./out/a-(1).txt'', ''./out/README'']"

definition example_duration :: "jsnum \<Rightarrow> string" where
  "example_duration x =
     (case x of
        Finite q \<Rightarrow> string_of_nat (nat \<lfloor>q\<rfloor>) @ ''s''
      | PosInf \<Rightarrow> ''Infinity''
      | NegInf \<Rightarrow> ''-Infinity''
      | NaN \<Rightarrow> ''NaN'')"

definition example_env :: env where
  "example_env =
     \<lparr>platform = Posix,
      axios_get = (\<lambda>w url t.
        if url = ''http://host/a.txt''
        then Inr \<lparr>content_length = Some ''2097152'', events = [Data 1000, Data 2096152, End]\<rparr>
        else if url = ''http://host/cut''
        then Inr \<lparr>content_length = None, events = [Data 10, StreamError (Error ''aborted'')]\<rparr>
        else Inl (Error ''getaddrinfo ENOTFOUND'')),
      make_dir = (\<lambda>w p.
        if p = ''/denied'' then Inl (Error ''EACCES: permission denied'')
        else if p = ''/refused'' then Inr False
        else Inr True),
      existsSync = (\<lambda>w p. p \<in> set example_files \<or> CreateWriteStream p \<in> set w),
      createWriteStream = (\<lambda>w p. None),
      date_now = (\<lambda>w. 1000 + 5 * length w),
      math_random_base36 = (\<lambda>w. ''0.4fzyo82mvyr''),
      single_bar_start = (\<lambda>w total i. None),
      single_bar_update = (\<lambda>w v s e. None),
      single_bar_stop = (\<lambda>w. None),
      secondsToDuration = (\<lambda>x. Inr (example_duration x))\<rparr>"


section \<open>Strings: what trimming and cutting guarantee\<close>

lemma dropWhile_decomp: "\<exists>a. s = a @ dropWhile P s \<and> (\<forall>c\<in>set a. P c)"
proof -
  have "s = takeWhile P s @ dropWhile P s" by simp
  moreover have "\<forall>c\<in>set (takeWhile P s). P c" by (auto dest: set_takeWhileD)
  ultimately show ?thesis by blast
qed

lemma trim_decomp:
  "\<exists>a b. s = a @ trim s @ b \<and> (\<forall>c\<in>set a. isWhiteSpace c) \<and> (\<forall>c\<in>set b. isWhiteSpace c)"
proof -
  obtain a where a: "s = a @ dropWhile isWhiteSpace s" "\<forall>c\<in>set a. isWhiteSpace c"
    using dropWhile_decomp[of s isWhiteSpace] by blast
  obtain b where b: "rev (dropWhile isWhiteSpace s) = b @ dropWhile isWhiteSpace (rev (dropWhile isWhiteSpace s))"
    "\<forall>c\<in>set b. isWhiteSpace c"
    using dropWhile_decomp[of "rev (dropWhile isWhiteSpace s)" isWhiteSpace] by blast
  have "rev (rev (dropWhile isWhiteSpace s)) = rev (b @ dropWhile isWhiteSpace (rev (dropWhile isWhiteSpace s)))"
    by (rule arg_cong[OF b(1)])
  then have d: "dropWhile isWhiteSpace s = trim s @ rev b"
    by (simp add: trim_def)
  have "s = a @ trim s @ rev b" unfolding d[symmetric] by (rule a(1))
  moreover have "\<forall>c\<in>set (rev b). isWhiteSpace c" using b(2) by simp
  ultimately show ?thesis using a(2) by blast
qed

lemma trim_empty_iff: "trim s = [] \<longleftrightarrow> (\<forall>c\<in>set s. isWhiteSpace c)"
proof
  assume e: "trim s = []"
  obtain a b where ab: "s = a @ trim s @ b" "\<forall>c\<in>set a. isWhiteSpace c" "\<forall>c\<in>set b. isWhiteSpace c"
    using trim_decomp[of s] by blast
  have "set s = set a \<union> set b" using ab(1) e by (metis append_Nil set_append)
  then show "\<forall>c\<in>set s. isWhiteSpace c" using ab(2,3) by blast
next
  assume "\<forall>c\<in>set s. isWhiteSpace c"
  then have e: "dropWhile isWhiteSpace s = []" by simp
  show "trim s = []" unfolding trim_def e by simp
qed

lemma trim_last: "trim s \<noteq> [] \<Longrightarrow> \<not> isWhiteSpace (last (trim s))"
proof -
  assume ne: "trim s \<noteq> []"
  let ?r = "dropWhile isWhiteSpace (rev (dropWhile isWhiteSpace s))"
  have rne: "?r \<noteq> []" using ne by (simp add: trim_def)
  have "\<not> isWhiteSpace (hd ?r)" using rne by (rule hd_dropWhile)
  moreover have "last (trim s) = hd ?r" using rne by (simp add: trim_def last_rev)
  ultimately show ?thesis by simp
qed

lemma trim_hd: "trim s \<noteq> [] \<Longrightarrow> \<not> isWhiteSpace (hd (trim s))"
proof -
  assume ne: "trim s \<noteq> []"
  let ?d = "dropWhile isWhiteSpace s"
  have dne: "?d \<noteq> []"
  proof
    assume e: "?d = []"
    have "trim s = []" unfolding trim_def e by simp
    with ne show False by simp
  qed
  have h: "\<not> isWhiteSpace (hd ?d)" using dne by (rule hd_dropWhile)
  obtain b where b: "rev ?d = b @ dropWhile isWhiteSpace (rev ?d)"
    using dropWhile_decomp[of "rev ?d" isWhiteSpace] by blast
  have "rev (rev ?d) = rev (b @ dropWhile isWhiteSpace (rev ?d))" by (rule arg_cong[OF b])
  then have "?d = trim s @ rev b" by (simp add: trim_def)
  with ne have "hd ?d = hd (trim s)" by simp
  with h show ?thesis by simp
qed

lemma endsWith_single: "endsWith s [c] \<longleftrightarrow> s \<noteq> [] \<and> last s = c"
proof (cases s rule: rev_cases)
  case Nil
  then show ?thesis by (simp add: endsWith_def)
next
  case (snoc ys y)
  then show ?thesis by (simp add: endsWith_def)
qed

lemma sep_single: "\<exists>c. sep E = [c] \<and> \<not> isWhiteSpace c"
  by (cases "platform E") (simp_all add: sep_def isWhiteSpace_def)

lemma trim_id: "s \<noteq> [] \<Longrightarrow> \<not> isWhiteSpace (hd s) \<Longrightarrow> \<not> isWhiteSpace (last s) \<Longrightarrow> trim s = s"
proof -
  assume ne: "s \<noteq> []" and h: "\<not> isWhiteSpace (hd s)" and l: "\<not> isWhiteSpace (last s)"
  have d: "dropWhile isWhiteSpace s = s" using ne h by (cases s) simp_all
  have "rev s \<noteq> []" using ne by simp
  moreover have "hd (rev s) = last s" using ne by (simp add: hd_rev)
  ultimately have "dropWhile isWhiteSpace (rev s) = rev s"
    using l by (cases "rev s") (simp, metis dropWhile.simps(2) list.sel(1))
  with d show ?thesis by (simp add: trim_def)
qed


lemma normalizeDirPath_idem: "normalizeDirPath E (normalizeDirPath E p) = normalizeDirPath E p"
proof (cases "trim p = []")
  case True
  then show ?thesis by (simp add: normalizeDirPath_def trim_def)
next
  case False
  obtain c where c: "sep E = [c]" "\<not> isWhiteSpace c" using sep_single by blast
  let ?n = "normalizeDirPath E p"
  have n: "?n = (if last (trim p) = c then trim p else trim p @ [c])"
    using False by (simp add: normalizeDirPath_def c endsWith_single)
  have ne: "?n \<noteq> []" using False n by simp
  have hd: "hd ?n = hd (trim p)" using False n by simp
  have last: "last ?n = c" using False n by simp
  have t: "trim ?n = ?n" using ne hd last c(2) trim_hd[OF False] by (simp add: trim_id)
  show ?thesis
    unfolding normalizeDirPath_def[of E "normalizeDirPath E p"] t
    using ne last by (simp add: c endsWith_single)
qed

lemma split_at_last:
  assumes c: "c \<in> set s"
  shows "\<exists>a t. s = a @ c # t \<and> c \<notin> set t \<and> lastIndexOf s c = int (length a)"
proof -
  let ?tw = "takeWhile (\<lambda>x. x \<noteq> c) (rev s)"
  let ?dw = "dropWhile (\<lambda>x. x \<noteq> c) (rev s)"
  have c': "c \<in> set (rev s)" using c by simp
  have dne: "?dw \<noteq> []" using c' by (simp add: dropWhile_eq_Nil_conv)
  have "\<not> (hd ?dw \<noteq> c)" using dne by (rule hd_dropWhile)
  then obtain r where r: "?dw = c # r" using dne by (cases ?dw) auto
  have "rev s = ?tw @ ?dw" by simp
  then have "rev (rev s) = rev (?tw @ c # r)" using r by simp
  then have s: "s = rev r @ c # rev ?tw" by simp
  have nt: "c \<notin> set (rev ?tw)" by (auto dest: set_takeWhileD)
  have "length s = length r + 1 + length ?tw"
    using arg_cong[OF s, of length] by simp
  then have "lastIndexOf s c = int (length (rev r))" using c by (simp add: lastIndexOf_def)
  with s nt show ?thesis by blast
qed

lemma baseName_extension: "baseName_of f @ extension_of f = f"
  by (simp add: baseName_of_def extension_of_def substring_def substring_from_def Let_def)

lemma extension_of_shape:
  "extension_of f = [] \<or> (\<exists>t. extension_of f = CHR 0x2E # t \<and> CHR 0x2E \<notin> set t)"
proof (cases "CHR 0x2E \<in> set f")
  case False
  then show ?thesis by (simp add: extension_of_def lastIndexOf_def)
next
  case True
  then obtain a t where at: "f = a @ CHR 0x2E # t" "CHR 0x2E \<notin> set t"
    "lastIndexOf f (CHR 0x2E) = int (length a)"
    using split_at_last[of "CHR 0x2E" f] by blast
  have "extension_of f = drop (length a) f"
    using at(3) by (simp add: extension_of_def substring_from_def)
  also have "\<dots> = CHR 0x2E # t" by (subst at(1)) simp
  finally show ?thesis using at(2) by blast
qed

lemma floor_rat_numeral_div: "\<lfloor>(numeral a / numeral b :: rat)\<rfloor> = numeral a div numeral b"
  using floor_divide_of_int_eq[of "numeral a" "numeral b", where ?'a = rat] by simp

section \<open>The counter strategy\<close>

lemma digit_char_inj: "a < 10 \<Longrightarrow> b < 10 \<Longrightarrow> digit_char a = digit_char b \<Longrightarrow> a = b"
proof -
  assume a: "a < 10" and b: "b < 10" and e: "digit_char a = digit_char b"
  have d: "distinct ''0123456789''" by simp
  have "length ''0123456789'' = 10" by simp
  with a b e d show ?thesis
    unfolding digit_char_def by (metis nth_eq_iff_index_eq)
qed

lemma string_of_nat_nonempty: "string_of_nat n \<noteq> []"
  by (subst string_of_nat.simps) simp

lemma string_of_nat_inj: "string_of_nat n = string_of_nat m \<Longrightarrow> n = m"
proof (induction n arbitrary: m rule: string_of_nat.induct)
  case (1 n)
  show ?case
  proof (cases "n < 10")
    case nlt: True
    show ?thesis
    proof (cases "m < 10")
      case True
      with nlt "1.prems" show ?thesis
        by (simp add: string_of_nat.simps[of n] string_of_nat.simps[of m] digit_char_inj)
    next
      case False
      with nlt "1.prems" string_of_nat_nonempty[of "m div 10"] show ?thesis
        by (simp add: string_of_nat.simps[of n] string_of_nat.simps[of m])
    qed
  next
    case nge: False
    show ?thesis
    proof (cases "m < 10")
      case True
      with nge "1.prems" string_of_nat_nonempty[of "n div 10"] show ?thesis
        by (simp add: string_of_nat.simps[of n] string_of_nat.simps[of m])
    next
      case False
      with nge "1.prems" have e: "string_of_nat (n div 10) = string_of_nat (m div 10)"
        and d: "digit_char (n mod 10) = digit_char (m mod 10)"
        by (simp_all add: string_of_nat.simps[of n] string_of_nat.simps[of m])
      from "1.IH"[OF nge e] have q: "n div 10 = m div 10" .
      from d have r: "n mod 10 = m mod 10" by (simp add: digit_char_inj)
      from q r show ?thesis by (metis div_mult_mod_eq)
    qed
  qed
qed

lemma counterName_inj: "counterName b e n = counterName b e m \<Longrightarrow> n = m"
proof -
  assume "counterName b e n = counterName b e m"
  then have "string_of_nat n @ '')'' @ e = string_of_nat m @ '')'' @ e"
    by (simp add: counterName_def)
  then have "string_of_nat n = string_of_nat m" by simp
  then show ?thesis by (rule string_of_nat_inj)
qed

lemma free_counter_exists:
  assumes fin: "finite {p. existsSync E w p}"
  shows "\<exists>n\<ge>1. \<not> existsSync E w (np @ counterName b e n)"
proof (rule ccontr)
  assume "\<not> ?thesis"
  then have all: "\<And>n. 1 \<le> n \<Longrightarrow> existsSync E w (np @ counterName b e n)" by blast
  let ?f = "\<lambda>n. np @ counterName b e n"
  have inj: "inj_on ?f {1..}" by (auto simp: inj_on_def dest: counterName_inj)
  have sub: "?f ` {1..} \<subseteq> {p. existsSync E w p}" using all by auto
  have "finite (?f ` {1..})" using fin sub by (rule rev_finite_subset)
  then have "finite {1::nat ..}" using inj by (simp add: finite_image_iff)
  then show False by (simp add: infinite_Ici)
qed

lemma counter_loop_finds:
  assumes "counter \<le> k" "\<not> existsSync E w (np @ counterName b e k)"
    and "\<And>j. counter \<le> j \<Longrightarrow> j < k \<Longrightarrow> existsSync E w (np @ counterName b e j)"
  shows "counter_loop E w np b e counter = Some (counterName b e k)"
  using assms
proof (induction "k - counter" arbitrary: counter)
  case 0
  then have "counter = k" by simp
  with 0 show ?case by (subst counter_loop.simps) simp
next
  case (Suc d)
  then have lt: "counter < k" by simp
  then have ex: "existsSync E w (np @ counterName b e counter)" using Suc.prems(3) by simp
  have "counter_loop E w np b e (counter + 1) = Some (counterName b e k)"
  proof (rule Suc.hyps(1))
    show "d = k - (counter + 1)" using Suc.hyps(2) by simp
    show "counter + 1 \<le> k" using lt by simp
    show "\<not> existsSync E w (np @ counterName b e k)" by (rule Suc.prems(2))
    show "\<And>j. counter + 1 \<le> j \<Longrightarrow> j < k \<Longrightarrow> existsSync E w (np @ counterName b e j)"
      using Suc.prems(3) by simp
  qed
  with ex show ?case by (subst counter_loop.simps) simp
qed

lemma counter_loop_least:
  assumes fin: "finite {p. existsSync E w p}"
  shows "counter_loop E w np b e 1 =
    Some (counterName b e (LEAST n. 1 \<le> n \<and> \<not> existsSync E w (np @ counterName b e n)))"
proof -
  let ?P = "\<lambda>n. 1 \<le> n \<and> \<not> existsSync E w (np @ counterName b e n)"
  obtain n where n: "?P n" using free_counter_exists[OF fin, of np b e] by blast
  have l: "?P (Least ?P)" using n by (rule LeastI)
  have m: "\<And>j. j < Least ?P \<Longrightarrow> \<not> ?P j" by (rule not_less_Least)
  show ?thesis
  proof (rule counter_loop_finds)
    show "1 \<le> Least ?P" using l by simp
    show "\<not> existsSync E w (np @ counterName b e (Least ?P))" using l by simp
    show "\<And>j. 1 \<le> j \<Longrightarrow> j < Least ?P \<Longrightarrow> existsSync E w (np @ counterName b e j)"
      using m by blast
  qed
qed

section \<open>Directory paths\<close>

lemma endsWith_iff: "endsWith s t \<longleftrightarrow> (\<exists>u. s = u @ t)"
proof
  assume e: "endsWith s t"
  then have "s = take (length s - length t) s @ t"
    unfolding endsWith_def by (metis append_take_drop_id)
  then show "\<exists>u. s = u @ t" ..
next
  assume "\<exists>u. s = u @ t"
  then obtain u where "s = u @ t" ..
  then show "endsWith s t" by (simp add: endsWith_def)
qed

text \<open>
  Claim C9. For a directory path made of white space only (the empty path included),
  \<^verbatim>\<open>ensureDirectoryExists\<close> returns \<^verbatim>\<open>true\<close> and calls nothing (the world is
  unchanged, so \<^verbatim>\<open>make_dir\<close> was not called), and \<^verbatim>\<open>normalizeDirPath\<close> returns
  the empty string. For any other path, the trimmed path is the path without the white space
  at its two ends, and \<^verbatim>\<open>normalizeDirPath\<close> returns the trimmed path, followed by the
  platform separator exactly when the trimmed path does not end with it.
\<close>

theorem whitespace_path_normalizeDirPath:
  "((\<forall>c\<in>set dirPath. isWhiteSpace c) \<longrightarrow>
      ensureDirectoryExists E dirPath w = (Inr True, w) \<and> normalizeDirPath E dirPath = '''') \<and>
   (\<not> (\<forall>c\<in>set dirPath. isWhiteSpace c) \<longrightarrow>
      (\<exists>a b. dirPath = a @ trim dirPath @ b \<and>
             (\<forall>c\<in>set a. isWhiteSpace c) \<and> (\<forall>c\<in>set b. isWhiteSpace c)) \<and>
      trim dirPath \<noteq> '''' \<and>
      \<not> isWhiteSpace (hd (trim dirPath)) \<and> \<not> isWhiteSpace (last (trim dirPath)) \<and>
      normalizeDirPath E dirPath =
        trim dirPath @ (if \<exists>u. trim dirPath = u @ sep E then '''' else sep E))"
proof (cases "\<forall>c\<in>set dirPath. isWhiteSpace c")
  case True
  then have "trim dirPath = ''''" by (simp add: trim_empty_iff)
  then show ?thesis using True by (simp add: ensureDirectoryExists_def normalizeDirPath_def)
next
  case False
  then have ne: "trim dirPath \<noteq> ''''" by (simp add: trim_empty_iff)
  have "normalizeDirPath E dirPath =
        trim dirPath @ (if \<exists>u. trim dirPath = u @ sep E then '''' else sep E)"
    using ne by (simp add: normalizeDirPath_def endsWith_iff)
  then show ?thesis
    using False ne trim_decomp[of dirPath] trim_hd[OF ne] trim_last[OF ne] by blast
qed

theorem whitespace_path_normalizeDirPath_witness:
  "ensureDirectoryExists example_env [CHR 0x20, CHR 0x09] [] = (Inr True, []) \<and>
   normalizeDirPath example_env [CHR 0x20, CHR 0x09] = '''' \<and>
   trim '' ./out '' = ''./out'' \<and>
   normalizeDirPath example_env '' ./out '' = ''./out/'' \<and>
   normalizeDirPath example_env ''./out/ '' = ''./out/''"
proof -
  have t1: "trim '' ./out '' = ''./out''" by (simp add: trim_def isWhiteSpace_def)
  have t2: "trim ''./out/ '' = ''./out/''" by (simp add: trim_def isWhiteSpace_def)
  have s: "sep example_env = ''/''" by (simp add: sep_def example_env_def)
  have n1: "\<not> (\<exists>u. ''./out'' = u @ ''/'')" by (simp add: append_eq_Cons_conv)
  have n2: "\<exists>u. ''./out/'' = u @ ''/''" by (rule exI[of _ "''./out''"]) simp
  show ?thesis
    using whitespace_path_normalizeDirPath[of "[CHR 0x20, CHR 0x09]" example_env "[]"]
      whitespace_path_normalizeDirPath[of "'' ./out ''" example_env "[]"]
      whitespace_path_normalizeDirPath[of "''./out/ ''" example_env "[]"]
    unfolding t1 t2 s using n1 n2
    by (simp add: isWhiteSpace_def)
qed

section \<open>Names for files that already exist\<close>

lemma longer_differs: "a @ CHR ''-'' # m @ e \<noteq> a @ e"
proof
  assume "a @ CHR ''-'' # m @ e = a @ e"
  then have "length (a @ CHR ''-'' # m @ e) = length (a @ e)" by (rule arg_cong)
  then show False by simp
qed

lemma suffixed_name_differs: "baseName_of f @ ''-'' @ m @ extension_of f \<noteq> f"
  using longer_differs[of "baseName_of f" m "extension_of f"]
  by (simp add: baseName_extension)

lemma counterName_differs: "counterName (baseName_of f) (extension_of f) n \<noteq> f"
  using suffixed_name_differs[of f "''('' @ string_of_nat n @ '')''"]
  by (simp add: counterName_def)

text \<open>
  Claim C3. When a file of the desired name is in the directory (and the file system holds
  finitely many paths), \<^verbatim>\<open>generateUniqueFilename\<close> returns, under every strategy
  string, a name that differs from the desired one; under \<^verbatim>\<open>counter\<close> it returns
  \<open>base-(n)ext\<close> for the least \<open>n \<ge> 1\<close> for which no such path exists, where
  \<open>base\<close> and \<open>ext\<close> are the desired name cut at its last dot.
\<close>

theorem generateUniqueFilename_existing:
  assumes ex: "existsSync E w (normalizeDirPath E dirPath @ fileName)"
    and fin: "finite {p. existsSync E w p}"
  shows "(\<exists>name. generateUniqueFilename E dirPath fileName strategy w = Some name \<and>
                 name \<noteq> fileName) \<and>
         generateUniqueFilename E dirPath fileName ''counter'' w =
           Some (counterName (baseName_of fileName) (extension_of fileName)
                   (LEAST n. 1 \<le> n \<and>
                      \<not> existsSync E w
                          (normalizeDirPath E dirPath @
                           counterName (baseName_of fileName) (extension_of fileName) n))) \<and>
         baseName_of fileName @ extension_of fileName = fileName \<and>
         (extension_of fileName = '''' \<or>
          (\<exists>t. extension_of fileName = CHR ''.'' # t \<and> CHR ''.'' \<notin> set t))"
proof -
  let ?b = "baseName_of fileName" and ?e = "extension_of fileName"
  let ?np = "normalizeDirPath E dirPath"
  let ?k = "LEAST n. 1 \<le> n \<and> \<not> existsSync E w (?np @ counterName ?b ?e n)"
  have loop: "counter_loop E w ?np ?b ?e 1 = Some (counterName ?b ?e ?k)"
    using fin by (rule counter_loop_least)
  have counter: "generateUniqueFilename E dirPath fileName ''counter'' w =
      Some (counterName ?b ?e ?k)"
    using ex loop by (simp add: generateUniqueFilename_def)
  have differs: "\<exists>name. generateUniqueFilename E dirPath fileName strategy w = Some name \<and>
      name \<noteq> fileName"
  proof (cases "strategy = ''counter''")
    case True
    then show ?thesis using counter counterName_differs[of fileName ?k] by simp
  next
    case False
    then show ?thesis
      using ex suffixed_name_differs[of fileName]
      by (simp add: generateUniqueFilename_def Let_def)
  qed
  from differs counter baseName_extension[of fileName] extension_of_shape[of fileName]
  show ?thesis by simp
qed

lemma example_files_finite: "finite {p. existsSync example_env w p}"
proof -
  have "finite (CreateWriteStream -` set w)"
    by (rule finite_vimageI) (simp_all add: inj_on_def)
  moreover have "{p. existsSync example_env w p} =
      set example_files \<union> CreateWriteStream -` set w"
    by (auto simp: example_env_def)
  ultimately show ?thesis by simp
qed

theorem generateUniqueFilename_existing_witness:
  "existsSync example_env [] (normalizeDirPath example_env ''./out'' @ ''a.txt'') \<and>
   finite {p. existsSync example_env [] p} \<and>
   generateUniqueFilename example_env ''./out'' ''a.txt'' ''counter'' [] = Some ''a-(2).txt'' \<and>
   generateUniqueFilename example_env ''./out'' ''a.txt'' ''timestamp'' [] = Some ''a-1000.txt'' \<and>
   generateUniqueFilename example_env ''./out'' ''a.txt'' ''random'' [] = Some ''a-4fzyo8.txt'' \<and>
   generateUniqueFilename example_env ''./out'' ''a.txt'' ''newest'' [] = Some ''a-1000.txt'' \<and>
   (\<exists>name. generateUniqueFilename example_env ''./out'' ''a.txt'' ''random'' [] = Some name \<and>
           name \<noteq> ''a.txt'')"
proof -
  have n: "normalizeDirPath example_env ''./out'' = ''./out/''"
    by (simp add: normalizeDirPath_def trim_def isWhiteSpace_def endsWith_def sep_def
        example_env_def)
  have ex: "existsSync example_env [] (normalizeDirPath example_env ''./out'' @ ''a.txt'')"
    unfolding n by (simp add: example_env_def example_files_def)
  have fin: "finite {p. existsSync example_env [] p}" by (rule example_files_finite)
  have b: "baseName_of ''a.txt'' = ''a''" "extension_of ''a.txt'' = ''.txt''"
    by (simp_all add: baseName_of_def extension_of_def lastIndexOf_def substring_def
        substring_from_def)
  have e1: "existsSync example_env [] ''./out/a-(1).txt''"
    and e2: "\<not> existsSync example_env [] ''./out/a-(2).txt''"
    by (simp_all add: example_env_def example_files_def)
  have c: "counter_loop example_env [] ''./out/'' ''a'' ''.txt'' 1 = Some ''a-(2).txt''"
    using e1 e2
    by (simp add: counter_loop.simps counterName_def string_of_nat.simps digit_char_def)
  have t: "string_of_nat (date_now example_env []) = ''1000''"
    by (simp add: example_env_def string_of_nat.simps digit_char_def)
  have r: "substring (math_random_base36 example_env []) 2 8 = ''4fzyo8''"
    by (simp add: example_env_def substring_def)
  have g: "generateUniqueFilename example_env ''./out'' ''a.txt'' ''counter'' [] = Some ''a-(2).txt''"
    "generateUniqueFilename example_env ''./out'' ''a.txt'' ''timestamp'' [] = Some ''a-1000.txt''"
    "generateUniqueFilename example_env ''./out'' ''a.txt'' ''random'' [] = Some ''a-4fzyo8.txt''"
    "generateUniqueFilename example_env ''./out'' ''a.txt'' ''newest'' [] = Some ''a-1000.txt''"
    using ex c unfolding generateUniqueFilename_def n b by (simp_all add: t r)
  from generateUniqueFilename_existing[OF ex fin, of "''random''"] ex fin g show ?thesis
    by simp
qed

section \<open>Stopping the progress bar\<close>

text \<open>
  Claim C7. \<^verbatim>\<open>stop\<close> on an inactive progress bar changes neither the bar nor the
  world. On an active one it calls \<^verbatim>\<open>bar.stop\<close> once and clears the flag, also when
  that call throws (the error is then written to the console). Hence the flag is clear after
  every \<^verbatim>\<open>stop\<close>, and a second \<^verbatim>\<open>stop\<close> right after the first does nothing.
\<close>

theorem stop_idempotent:
  "(\<not> isActive this \<longrightarrow> stop E this w = (this, w)) \<and>
   (isActive this \<longrightarrow>
      fst (stop E this w) = this\<lparr>isActive := False\<rparr> \<and>
      snd (stop E this w) =
        w @ BarStop #
          (case single_bar_stop E w of
             None \<Rightarrow> []
           | Some error \<Rightarrow> [ConsoleError (''Error stopping progress bar: '' @ message error)])) \<and>
   \<not> isActive (fst (stop E this w)) \<and>
   stop E (fst (stop E this w)) (snd (stop E this w)) = stop E this w"
  by (cases "single_bar_stop E w") (simp_all add: stop_def)

theorem stop_idempotent_witness:
  "stop (example_env\<lparr>single_bar_stop := \<lambda>w. Some (Error ''write EPIPE'')\<rparr>)
     \<lparr>totalSize = 10, startTime = 1000, totalSizeMB = 2, isActive = True\<rparr> [] =
     (\<lparr>totalSize = 10, startTime = 1000, totalSizeMB = 2, isActive = False\<rparr>,
      [BarStop, ConsoleError ''Error stopping progress bar: write EPIPE'']) \<and>
   stop (example_env\<lparr>single_bar_stop := \<lambda>w. Some (Error ''write EPIPE'')\<rparr>)
     \<lparr>totalSize = 10, startTime = 1000, totalSizeMB = 2, isActive = False\<rparr>
     [BarStop, ConsoleError ''Error stopping progress bar: write EPIPE''] =
     (\<lparr>totalSize = 10, startTime = 1000, totalSizeMB = 2, isActive = False\<rparr>,
      [BarStop, ConsoleError ''Error stopping progress bar: write EPIPE''])"
  using stop_idempotent[of "\<lparr>totalSize = 10, startTime = 1000, totalSizeMB = 2, isActive = True\<rparr>"
      "example_env\<lparr>single_bar_stop := \<lambda>w. Some (Error ''write EPIPE'')\<rparr>" "[]"]
    stop_idempotent[of "\<lparr>totalSize = 10, startTime = 1000, totalSizeMB = 2, isActive = False\<rparr>"
      "example_env\<lparr>single_bar_stop := \<lambda>w. Some (Error ''write EPIPE'')\<rparr>"
      "[BarStop, ConsoleError ''Error stopping progress bar: write EPIPE'']"]
  by (simp add: prod_eq_iff)

section \<open>One transfer\<close>

lemma on_events_settle: "fst (on_events E url filePath progressBar evs w) = settle url filePath evs"
proof (induction evs arbitrary: progressBar w)
  case Nil
  then show ?case by simp
next
  case (Cons ev evs)
  then show ?case by (cases ev) (simp_all add: case_prod_unfold Let_def)
qed

lemma settle_not_Rejected: "settle url filePath evs \<noteq> Rejected e"
  by (induction url filePath evs rule: settle.induct) simp_all

lemma settle_Pending_iff: "settle url filePath evs = Pending \<longleftrightarrow> \<not> ends_or_fails evs"
  by (induction url filePath evs rule: settle.induct) (simp_all add: ends_or_fails_def)

lemma fst_try_block:
  "fst (try_block E this url path fileName downloadNumber fileNamingStrategy w) =
     (case fst (fetchData E this url w) of
        Inl error \<Rightarrow> Returned (Resolved (Failure error))
      | Inr dataStream \<Rightarrow>
          (case fst (ensureDirectoryExists E path (snd (fetchData E this url w))) of
             Inl error \<Rightarrow> Threw error None
           | Inr False \<Rightarrow>
               Returned (Resolved (Failure (Error (''Failed to create directory: '' @ path))))
           | Inr True \<Rightarrow>
               (case generateUniqueFilename E (normalizeDirPath E path) fileName fileNamingStrategy
                       (snd (ensureDirectoryExists E path (snd (fetchData E this url w)))) of
                  None \<Rightarrow> Diverged
                | Some uniqueFileName \<Rightarrow>
                    (case fst (start E ProgressBar dataStream downloadNumber
                                 (snd (ensureDirectoryExists E path (snd (fetchData E this url w))))) of
                       Inl error \<Rightarrow>
                         Threw error
                           (Some (fst (snd (start E ProgressBar dataStream downloadNumber
                              (snd (ensureDirectoryExists E path (snd (fetchData E this url w))))))))
                     | Inr _ \<Rightarrow>
                         (case fst (createFileWriteStream E
                                      (normalizeDirPath E path @ uniqueFileName)
                                      (snd (snd (start E ProgressBar dataStream downloadNumber
                                        (snd (ensureDirectoryExists E path
                                           (snd (fetchData E this url w)))))))) of
                            Inl error \<Rightarrow>
                              Threw error
                                (Some (fst (snd (start E ProgressBar dataStream downloadNumber
                                   (snd (ensureDirectoryExists E path
                                      (snd (fetchData E this url w))))))))
                          | Inr _ \<Rightarrow>
                              Returned (settle url (normalizeDirPath E path @ uniqueFileName)
                                          (events dataStream)))))))"
  unfolding try_block_def
  by (simp add: case_prod_unfold Let_def on_events_settle
      split: sum.splits bool.splits option.splits prod.splits)

lemma fst_downloadOne:
  "fst (downloadOne E this url options w) =
     (case fst (try_block E this url
                  (case opt_path options of None \<Rightarrow> '''' | Some p \<Rightarrow> p)
                  (case opt_fileName options of None \<Rightarrow> ''file'' | Some f \<Rightarrow> f)
                  (case opt_downloadNumber options of None \<Rightarrow> 1 | Some n \<Rightarrow> n)
                  (case opt_fileNamingStrategy options of
                     None \<Rightarrow> this_fileNamingStrategy this
                   | Some s \<Rightarrow> s) w) of
        Returned p \<Rightarrow> p
      | Diverged \<Rightarrow> Pending
      | Threw error progressBar \<Rightarrow> Resolved (Failure error))"
  unfolding downloadOne_def
  by (simp add: case_prod_unfold Let_def split: try_result.splits)


lemma fetchData_failure:
  "axios_get E w url (timeout this) = Inl cause \<Longrightarrow>
   fetchData E this url w =
     (Inl (FetchError (''Failed to fetch data from URL: '' @ url) url cause),
      w @ [AxiosGet url (timeout this)])"
  by (simp add: fetchData_def)

text \<open>
  Claim C4. When \<^verbatim>\<open>axios.get\<close> fails, \<^verbatim>\<open>downloadOne\<close> resolves to a failure
  outcome whose error is a \<^verbatim>\<open>FetchError\<close> with the URL and the original error, and
  the only calls it has made are the GET and one error line on the console: no
  \<^verbatim>\<open>make_dir\<close>, no write stream, no call to the progress bar. (Resolving a file name
  makes no call, so the history cannot show it; the \<^verbatim>\<open>return\<close> comes before it.)
\<close>

theorem fetch_failure_returns_at_once:
  assumes "axios_get E w url (timeout this) = Inl cause"
  shows "downloadOne E this url options w =
           (Resolved (Failure (FetchError (''Failed to fetch data from URL: '' @ url) url cause)),
            w @ [AxiosGet url (timeout this),
                 ConsoleMessagesError
                   (''Failed to fetch data from URL: '' @ url @ [CHR 0x0A] @ ''Error details: '' @
                    (if message cause = '''' then ''Unknown error'' else message cause))]) \<and>
         (\<exists>new. snd (downloadOne E this url options w) = w @ new \<and>
            (\<forall>p. MakeDir p \<notin> set new) \<and>
            (\<forall>p. CreateWriteStream p \<notin> set new) \<and>
            (\<forall>total i. BarStart total i \<notin> set new) \<and>
            (\<forall>v speed eta. BarUpdate v speed eta \<notin> set new) \<and>
            BarStop \<notin> set new)"
proof -
  have "downloadOne E this url options w =
           (Resolved (Failure (FetchError (''Failed to fetch data from URL: '' @ url) url cause)),
            w @ [AxiosGet url (timeout this),
                 ConsoleMessagesError
                   (''Failed to fetch data from URL: '' @ url @ [CHR 0x0A] @ ''Error details: '' @
                    (if message cause = '''' then ''Unknown error'' else message cause))])"
    unfolding downloadOne_def try_block_def
    by (simp add: fetchData_failure[OF assms] Let_def)
  then show ?thesis by simp
qed

theorem fetch_failure_returns_at_once_witness:
  "axios_get example_env [] ''http://nowhere/x'' (timeout (Download \<lparr>ctor_timeout = None, ctor_fileNamingStrategy = None\<rparr>)) =
     Inl (Error ''getaddrinfo ENOTFOUND'') \<and>
   downloadOne example_env (Download \<lparr>ctor_timeout = None, ctor_fileNamingStrategy = None\<rparr>)
     ''http://nowhere/x''
     \<lparr>opt_path = Some ''./out'', opt_fileName = Some ''x.bin'', opt_downloadNumber = None,
        opt_fileNamingStrategy = None\<rparr> [] =
     (Resolved (Failure (FetchError ''Failed to fetch data from URL: http://nowhere/x''
                           ''http://nowhere/x'' (Error ''getaddrinfo ENOTFOUND''))),
      [AxiosGet ''http://nowhere/x'' 5000,
       ConsoleMessagesError
         (''Failed to fetch data from URL: http://nowhere/x'' @ [CHR 0x0A] @
          ''Error details: getaddrinfo ENOTFOUND'')])"
proof -
  have a: "axios_get example_env [] ''http://nowhere/x''
      (timeout (Download \<lparr>ctor_timeout = None, ctor_fileNamingStrategy = None\<rparr>)) =
     Inl (Error ''getaddrinfo ENOTFOUND'')"
    by (simp add: example_env_def)
  from fetch_failure_returns_at_once[OF a] a show ?thesis
    by (simp add: Download_def)
qed

lemma settle_Success: "settle url filePath evs = Resolved (Success p) \<Longrightarrow> p = filePath"
  by (induction url filePath evs rule: settle.induct) simp_all

lemma generateUniqueFilename_unused:
  "\<not> existsSync E w (normalizeDirPath E dirPath @ fileName) \<Longrightarrow>
   generateUniqueFilename E dirPath fileName strategy w = Some fileName"
  by (simp add: generateUniqueFilename_def)

text \<open>
  Claim C5. When no file of the desired name exists under the normalized directory,
  \<^verbatim>\<open>generateUniqueFilename\<close> returns the desired name, whatever the strategy. Hence,
  when the desired name is free once the directory has been ensured, a successful
  \<^verbatim>\<open>downloadOne\<close> carries the normalized directory followed by the desired name as
  its \<^verbatim>\<open>filePath\<close>.
\<close>

theorem unused_name_is_kept:
  "(\<not> existsSync E w (normalizeDirPath E dirPath @ fileName) \<longrightarrow>
      generateUniqueFilename E dirPath fileName strategy w = Some fileName) \<and>
   (let path = (case opt_path options of None \<Rightarrow> '''' | Some p \<Rightarrow> p);
        wanted = (case opt_fileName options of None \<Rightarrow> ''file'' | Some f \<Rightarrow> f);
        ensured = ensureDirectoryExists E path (snd (fetchData E this url w))
    in \<not> existsSync E (snd ensured) (normalizeDirPath E path @ wanted) \<and>
       fst (downloadOne E this url options w) = Resolved (Success filePath) \<longrightarrow>
       filePath = normalizeDirPath E path @ wanted)"
proof -
  let ?path = "case opt_path options of None \<Rightarrow> '''' | Some p \<Rightarrow> p"
  let ?wanted = "case opt_fileName options of None \<Rightarrow> ''file'' | Some f \<Rightarrow> f"
  let ?w2 = "snd (ensureDirectoryExists E ?path (snd (fetchData E this url w)))"
  have "filePath = normalizeDirPath E ?path @ ?wanted"
    if free: "\<not> existsSync E ?w2 (normalizeDirPath E ?path @ ?wanted)"
      and ok: "fst (downloadOne E this url options w) = Resolved (Success filePath)"
  proof -
    have "\<not> existsSync E ?w2 (normalizeDirPath E (normalizeDirPath E ?path) @ ?wanted)"
      using free by (simp add: normalizeDirPath_idem)
    then have g: "generateUniqueFilename E (normalizeDirPath E ?path) ?wanted strategy ?w2 =
        Some ?wanted" for strategy
      by (rule generateUniqueFilename_unused)
    from ok show ?thesis
      unfolding fst_downloadOne fst_try_block g
      by (auto split: sum.splits bool.splits dest: settle_Success)
  qed
  then show ?thesis
    unfolding Let_def using generateUniqueFilename_unused[of E w dirPath fileName strategy]
    by blast
qed


theorem unused_name_is_kept_witness:
  "\<not> existsSync example_env [AxiosGet ''http://host/a.txt'' 5000, MakeDir ''./new'']
       (normalizeDirPath example_env ''./new'' @ ''c.txt'') \<and>
   \<not> existsSync example_env [] (normalizeDirPath example_env ''./new'' @ ''c.txt'') \<and>
   generateUniqueFilename example_env ''./new'' ''c.txt'' ''counter'' [] = Some ''c.txt'' \<and>
   fst (downloadOne example_env \<lparr>timeout = 5000, this_fileNamingStrategy = ''counter''\<rparr>
          ''http://host/a.txt''
          \<lparr>opt_path = Some ''./new'', opt_fileName = Some ''c.txt'', opt_downloadNumber = None,
             opt_fileNamingStrategy = None\<rparr> []) =
     Resolved (Success ''./new/c.txt'') \<and>
   ''./new/c.txt'' = normalizeDirPath example_env ''./new'' @ ''c.txt''"
proof -
  let ?dl = "\<lparr>timeout = 5000, this_fileNamingStrategy = ''counter''\<rparr>"
  let ?opts = "\<lparr>opt_path = Some ''./new'', opt_fileName = Some ''c.txt'',
    opt_downloadNumber = None, opt_fileNamingStrategy = None\<rparr>"
  let ?w2 = "[AxiosGet ''http://host/a.txt'' 5000, MakeDir ''./new'']"
  have t: "trim ''./new'' = ''./new''" by (simp add: trim_def isWhiteSpace_def)
  have n: "normalizeDirPath example_env ''./new'' = ''./new/''"
    by (simp add: normalizeDirPath_def t endsWith_def sep_def example_env_def)
  have free: "\<not> existsSync example_env ?w2 (normalizeDirPath example_env ''./new'' @ ''c.txt'')"
    unfolding n by (simp add: example_env_def example_files_def)
  have b: "fetchData example_env ?dl ''http://host/a.txt'' [] =
      (Inr \<lparr>content_length = Some ''2097152'', events = [Data 1000, Data 2096152, End]\<rparr>,
       [AxiosGet ''http://host/a.txt'' 5000])"
    by (simp add: fetchData_def example_env_def)
  have e: "ensureDirectoryExists example_env ''./new'' [AxiosGet ''http://host/a.txt'' 5000] =
      (Inr True, ?w2)"
    by (simp add: ensureDirectoryExists_def t example_env_def)
  have n2: "normalizeDirPath example_env ''./new/'' = ''./new/''"
    using normalizeDirPath_idem[of example_env "''./new''"] unfolding n .
  have g: "generateUniqueFilename example_env ''./new/'' ''c.txt'' ''counter'' ?w2 = Some ''c.txt''"
    using free unfolding n by (simp add: generateUniqueFilename_def n2)
  have s: "fst (start example_env ProgressBar
        \<lparr>content_length = Some ''2097152'', events = [Data 1000, Data 2096152, End]\<rparr> i ?w2) =
        Inr ()" for i
    by (simp add: start_def ProgressBar_def example_env_def Let_def)
  have k: "fst (createFileWriteStream example_env ''./new/c.txt'' w) = Inr ()" for w
    by (simp add: createFileWriteStream_def example_env_def)
  have ok: "fst (downloadOne example_env ?dl ''http://host/a.txt'' ?opts []) =
      Resolved (Success ''./new/c.txt'')"
    unfolding fst_downloadOne fst_try_block by (simp add: b e n g s k)
  from unused_name_is_kept[where E = example_env and w = "[]" and options = ?opts
      and this = ?dl and url = "''http://host/a.txt''" and filePath = "''./new/c.txt''"
      and dirPath = "''./new''" and fileName = "''c.txt''" and strategy = "''counter''"]
    free ok
  show ?thesis
    unfolding Let_def by (simp add: b e n) (simp add: example_env_def example_files_def)
qed

section \<open>Batches\<close>

lemma generateUniqueFilename_returns:
  assumes "finite {p. existsSync E w p}"
  shows "\<exists>name. generateUniqueFilename E dirPath fileName strategy w = Some name"
  using counter_loop_least[OF assms]
  by (simp add: generateUniqueFilename_def Let_def)

lemma fetchData_Inr:
  "fst (fetchData E this url w) = Inr data \<Longrightarrow> axios_get E w url (timeout this) = Inr data"
  by (simp add: fetchData_def split: sum.splits)

lemma try_block_settles:
  assumes "settles_always E"
  shows "fst (try_block E this url path fileName downloadNumber fileNamingStrategy w) \<noteq> Diverged \<and>
         fst (try_block E this url path fileName downloadNumber fileNamingStrategy w) \<noteq>
           Returned Pending"
proof -
  have fin: "finite {p. existsSync E w' p}" for w'
    using assms by (simp add: settles_always_def)
  have named: "generateUniqueFilename E (normalizeDirPath E path) fileName fileNamingStrategy
      (snd (ensureDirectoryExists E path (snd (fetchData E this url w)))) \<noteq> None"
    using generateUniqueFilename_returns[OF fin] by auto
  have ends: "settle u f (events data) \<noteq> Pending"
    if "fst (fetchData E this url w) = Inr data" for data u f
    using assms fetchData_Inr[OF that]
    by (auto simp: settles_always_def settle_Pending_iff)
  show ?thesis
    unfolding fst_try_block
    using ends named
    by (auto split: sum.splits bool.splits option.splits)
qed

lemma downloadOne_not_Pending:
  assumes "settles_always E"
  shows "fst (downloadOne E this url options w) \<noteq> Pending"
  unfolding fst_downloadOne
  using try_block_settles[OF assms]
  by (auto split: try_result.splits)

lemma downloadOne_not_Rejected: "fst (downloadOne E this url options w) \<noteq> Rejected e"
  unfolding fst_downloadOne fst_try_block
  by (auto simp: settle_not_Rejected split: sum.splits bool.splits option.splits)

lemma downloadOne_resolves:
  assumes "settles_always E"
  shows "\<exists>result w1. downloadOne E this url options w = (Resolved result, w1)"
proof -
  have "fst (downloadOne E this url options w) \<noteq> Pending"
    using assms by (rule downloadOne_not_Pending)
  moreover have "fst (downloadOne E this url options w) \<noteq> Rejected e" for e
    by (rule downloadOne_not_Rejected)
  ultimately obtain result where "fst (downloadOne E this url options w) = Resolved result"
    by (cases "fst (downloadOne E this url options w)") auto
  then show ?thesis by (metis prod.collapse)
qed

lemma loop_Completed:
  "downloadMany_loop E this i acc args w = (Completed r, w') \<Longrightarrow>
   \<exists>more. r = acc @ more \<and> length more = length args"
proof (induction args arbitrary: i acc w)
  case Nil
  then show ?case by simp
next
  case (Cons a args)
  show ?case
  proof (cases a)
    case Undefined
    with Cons.prems show ?thesis by simp
  next
    case Null
    with Cons.prems show ?thesis by simp
  next
    case (Obj options)
    let ?one = "downloadOne E this (opt_url options)
        \<lparr>opt_path = Some (case opt_path options of None \<Rightarrow> '''' | Some p \<Rightarrow> p),
           opt_fileName = Some (case opt_fileName options of None \<Rightarrow> ''file'' | Some f \<Rightarrow> f),
           opt_downloadNumber = Some (i + 1), opt_fileNamingStrategy = None\<rparr> w"
    obtain p w1 where one: "?one = (p, w1)" by (cases ?one)
    show ?thesis
    proof (cases p)
      case (Resolved result)
      with Cons.prems Obj one
      have "downloadMany_loop E this (i + 1) (acc @ [result]) args w1 = (Completed r, w')"
        by (simp add: Let_def)
      from Cons.IH[OF this] obtain more where "r = (acc @ [result]) @ more"
        "length more = length args" by blast
      then have "r = acc @ (result # more) \<and> length (result # more) = length (a # args)"
        by simp
      then show ?thesis by blast
    next
      case (Rejected e)
      with Cons.prems Obj one show ?thesis by (simp add: Let_def)
    next
      case Pending
      with Cons.prems Obj one show ?thesis by (simp add: Let_def)
    qed
  qed
qed

lemma loop_append:
  "downloadMany_loop E this i acc xs w = (Completed r, w') \<Longrightarrow>
   downloadMany_loop E this i acc (xs @ ys) w = downloadMany_loop E this (i + length xs) r ys w'"
proof (induction xs arbitrary: i acc w)
  case Nil
  then show ?case by simp
next
  case (Cons a xs)
  show ?case
  proof (cases a)
    case Undefined
    with Cons.prems show ?thesis by simp
  next
    case Null
    with Cons.prems show ?thesis by simp
  next
    case (Obj options)
    let ?one = "downloadOne E this (opt_url options)
        \<lparr>opt_path = Some (case opt_path options of None \<Rightarrow> '''' | Some p \<Rightarrow> p),
           opt_fileName = Some (case opt_fileName options of None \<Rightarrow> ''file'' | Some f \<Rightarrow> f),
           opt_downloadNumber = Some (i + 1), opt_fileNamingStrategy = None\<rparr> w"
    obtain p w1 where one: "?one = (p, w1)" by (cases ?one)
    show ?thesis
    proof (cases p)
      case (Resolved result)
      with Cons.prems Obj one
      have "downloadMany_loop E this (i + 1) (acc @ [result]) xs w1 = (Completed r, w')"
        by (simp add: Let_def)
      from Cons.IH[OF this] Obj one Resolved show ?thesis by (simp add: Let_def)
    next
      case (Rejected e)
      with Cons.prems Obj one show ?thesis by (simp add: Let_def)
    next
      case Pending
      with Cons.prems Obj one show ?thesis by (simp add: Let_def)
    qed
  qed
qed

lemma loop_completes:
  assumes "settles_always E"
  shows "\<exists>r w'. downloadMany_loop E this i acc (map Obj reqs) w = (Completed r, w')"
proof (induction reqs arbitrary: i acc w)
  case Nil
  then show ?case by simp
next
  case (Cons a reqs)
  obtain result w1 where "downloadOne E this (opt_url a)
        \<lparr>opt_path = Some (case opt_path a of None \<Rightarrow> '''' | Some p \<Rightarrow> p),
           opt_fileName = Some (case opt_fileName a of None \<Rightarrow> ''file'' | Some f \<Rightarrow> f),
           opt_downloadNumber = Some (i + 1), opt_fileNamingStrategy = None\<rparr> w =
        (Resolved result, w1)"
    using downloadOne_resolves[OF assms] by blast
  then show ?case using Cons.IH[of "i + 1" "acc @ [result]" w1] by (simp add: Let_def)
qed

lemma loop_not_Thrown:
  "downloadMany_loop E this i acc (map Obj reqs) w \<noteq> (Thrown e r, w')"
proof (induction reqs arbitrary: i acc w)
  case Nil
  then show ?case by simp
next
  case (Cons a reqs)
  let ?one = "downloadOne E this (opt_url a)
      \<lparr>opt_path = Some (case opt_path a of None \<Rightarrow> '''' | Some p \<Rightarrow> p),
         opt_fileName = Some (case opt_fileName a of None \<Rightarrow> ''file'' | Some f \<Rightarrow> f),
         opt_downloadNumber = Some (i + 1), opt_fileNamingStrategy = None\<rparr> w"
  obtain p w1 where one: "?one = (p, w1)" by (cases ?one)
  have "p \<noteq> Rejected x" for x
    using downloadOne_not_Rejected[of E this "opt_url a" _ w x] one by (metis fst_conv)
  then show ?case using one Cons.IH by (cases p) (simp_all add: Let_def)
qed

lemma loop_prefix:
  "downloadMany_loop E this i acc (xs @ ys) w = (Completed r, w') \<Longrightarrow>
   \<exists>rk wk. downloadMany_loop E this i acc xs w = (Completed rk, wk) \<and>
     downloadMany_loop E this (i + length xs) rk ys wk = (Completed r, w')"
proof (induction xs arbitrary: i acc w)
  case Nil
  then show ?case by simp
next
  case (Cons a xs)
  show ?case
  proof (cases a)
    case Undefined
    with Cons.prems show ?thesis by simp
  next
    case Null
    with Cons.prems show ?thesis by simp
  next
    case (Obj options)
    let ?one = "downloadOne E this (opt_url options)
        \<lparr>opt_path = Some (case opt_path options of None \<Rightarrow> '''' | Some p \<Rightarrow> p),
           opt_fileName = Some (case opt_fileName options of None \<Rightarrow> ''file'' | Some f \<Rightarrow> f),
           opt_downloadNumber = Some (i + 1), opt_fileNamingStrategy = None\<rparr> w"
    obtain p w1 where one: "?one = (p, w1)" by (cases ?one)
    show ?thesis
    proof (cases p)
      case (Resolved result)
      with Cons.prems Obj one
      have "downloadMany_loop E this (i + 1) (acc @ [result]) (xs @ ys) w1 = (Completed r, w')"
        by (simp add: Let_def)
      from Cons.IH[OF this] Obj one Resolved show ?thesis by (simp add: Let_def)
    next
      case (Rejected e)
      with Cons.prems Obj one show ?thesis by (simp add: Let_def)
    next
      case Pending
      with Cons.prems Obj one show ?thesis by (simp add: Let_def)
    qed
  qed
qed

lemma loop_step_Completed:
  assumes "downloadMany_loop E this i acc (Obj options # rest) w = (Completed r, w')"
  shows "\<exists>out w1. downloadOne E this (opt_url options)
        \<lparr>opt_path = Some (case opt_path options of None \<Rightarrow> '''' | Some p \<Rightarrow> p),
           opt_fileName = Some (case opt_fileName options of None \<Rightarrow> ''file'' | Some f \<Rightarrow> f),
           opt_downloadNumber = Some (i + 1), opt_fileNamingStrategy = None\<rparr> w =
        (Resolved out, w1) \<and>
      downloadMany_loop E this (i + 1) (acc @ [out]) rest w1 = (Completed r, w')"
proof -
  let ?one = "downloadOne E this (opt_url options)
        \<lparr>opt_path = Some (case opt_path options of None \<Rightarrow> '''' | Some p \<Rightarrow> p),
           opt_fileName = Some (case opt_fileName options of None \<Rightarrow> ''file'' | Some f \<Rightarrow> f),
           opt_downloadNumber = Some (i + 1), opt_fileNamingStrategy = None\<rparr> w"
  obtain p w1 where one: "?one = (p, w1)" by (cases ?one)
  show ?thesis using assms one by (cases p) (simp_all add: Let_def)
qed

lemma completed_positions:
  assumes all: "downloadMany_loop E this 0 [] (map Obj reqs) w0 = (Completed outs, w1)"
    and k: "k < length reqs"
  shows "\<exists>wk wk'.
      downloadMany_loop E this 0 [] (map Obj (take k reqs)) w0 = (Completed (take k outs), wk) \<and>
      downloadOne E this (opt_url (reqs ! k))
        \<lparr>opt_path = Some (case opt_path (reqs ! k) of None \<Rightarrow> '''' | Some p \<Rightarrow> p),
           opt_fileName = Some (case opt_fileName (reqs ! k) of None \<Rightarrow> ''file'' | Some f \<Rightarrow> f),
           opt_downloadNumber = Some (k + 1), opt_fileNamingStrategy = None\<rparr> wk =
        (Resolved (outs ! k), wk')"
proof -
  let ?xs = "map Obj (take k reqs)" and ?ys = "map Obj (drop (Suc k) reqs)"
  have split: "map Obj reqs = ?xs @ Obj (reqs ! k) # ?ys"
    using k by (simp add: id_take_nth_drop[symmetric] flip: map_append list.map(2))
  from all obtain rk wk where pre: "downloadMany_loop E this 0 [] ?xs w0 = (Completed rk, wk)"
    and post: "downloadMany_loop E this (0 + length ?xs) rk (Obj (reqs ! k) # ?ys) wk =
      (Completed outs, w1)"
    unfolding split using loop_prefix[of E this 0 "[]" ?xs "Obj (reqs ! k) # ?ys" w0 outs w1]
    by blast
  have lrk: "length rk = k" using loop_Completed[OF pre] k by auto
  have post': "downloadMany_loop E this k rk (Obj (reqs ! k) # ?ys) wk = (Completed outs, w1)"
    using post k by simp
  from loop_step_Completed[OF post'] obtain out wk' where
    one: "downloadOne E this (opt_url (reqs ! k))
        \<lparr>opt_path = Some (case opt_path (reqs ! k) of None \<Rightarrow> '''' | Some p \<Rightarrow> p),
           opt_fileName = Some (case opt_fileName (reqs ! k) of None \<Rightarrow> ''file'' | Some f \<Rightarrow> f),
           opt_downloadNumber = Some (k + 1), opt_fileNamingStrategy = None\<rparr> wk =
        (Resolved out, wk')"
    and rest: "downloadMany_loop E this (k + 1) (rk @ [out]) ?ys wk' = (Completed outs, w1)"
    by blast
  from loop_Completed[OF rest] obtain more where "outs = (rk @ [out]) @ more" by blast
  then have "take k outs = rk" "outs ! k = out" using lrk by (simp_all add: nth_append)
  with pre one show ?thesis by blast
qed

section \<open>Running the example world\<close>

lemma example_env_settles: "settles_always example_env"
proof -
  have "ends_or_fails (events data)" if "axios_get example_env w url t = Inr data" for w url t data
    using that by (auto simp: example_env_def ends_or_fails_def split: if_splits)
  then show ?thesis using example_files_finite by (simp add: settles_always_def)
qed

lemma floor_rat_numeral_div_half:
  "\<lfloor>(numeral a / numeral b :: rat) + 1 / 2\<rfloor> = (2 * numeral a + numeral b) div (2 * numeral b)"
proof -
  have "(numeral a / numeral b :: rat) + 1 / 2 =
      of_int (2 * numeral a + numeral b) / of_int (2 * numeral b)"
    by (simp add: field_simps)
  then show ?thesis by (simp only: floor_divide_of_int_eq)
qed

lemma floor_rat_half: "\<lfloor>1 / 2 :: rat\<rfloor> = 0"
  by (rule floor_unique) simp_all

lemmas example_eval =
  downloadOne_def try_block_def fetchData_def ensureDirectoryExists_def
  example_env_def Let_def trim_def isWhiteSpace_def normalizeDirPath_def endsWith_def sep_def
  generateUniqueFilename_def baseName_of_def extension_of_def lastIndexOf_def substring_def
  substring_from_def counter_loop.simps counterName_def
  example_files_def start_def ProgressBar_def parseInt10_def
  isDigit_def nat_of_digits_def digit_value_def toFixed2_def toFixed2_value_def hundredths_def
  floor_rat_numeral_div floor_rat_numeral_div_half floor_rat_half string_of_nat.simps digit_char_def
  createFileWriteStream_def
  update_def stop_def downloadedSizeMB_def elapsedTime_def remainingSizeMB_def
  estimatedTimeRemaining_def js_div_def example_duration_def downloadMany_def

text \<open>
  Claim C2. \<^verbatim>\<open>downloadMany\<close> on \<open>N\<close> request objects never rejects, and in a world
  where every transfer settles it resolves. Whenever it resolves, it resolves to exactly
  \<open>N\<close> outcomes, in the order of the requests: for every position \<open>k\<close>, the first \<open>k\<close>
  outcomes are what the loop made of the first \<open>k\<close> requests, and outcome \<open>k\<close> is the
  outcome of \<^verbatim>\<open>downloadOne\<close> on request \<open>k\<close>, numbered \<open>k + 1\<close>, run in the world those
  transfers left behind, whether they succeeded or failed.
\<close>

theorem downloadMany_one_outcome_per_request:
  "let w0 = w @ [ConsoleMessagesNormal
                   (''Starting download of '' @ string_of_nat (length reqs) @ '' file'' @
                    (if length reqs > 1 then ''s'' else '''') @ ''.'')];
       returned = fst (downloadMany E this (map Obj reqs) w)
   in (\<forall>e. returned \<noteq> Rejected e) \<and>
      (settles_always E \<longrightarrow> (\<exists>outs. returned = Resolved outs)) \<and>
      (\<forall>outs. returned = Resolved outs \<longrightarrow>
         length outs = length reqs \<and>
         (\<exists>w1. downloadMany_loop E this 0 [] (map Obj reqs) w0 = (Completed outs, w1)) \<and>
         (\<forall>k<length reqs. \<exists>wk wk'.
            downloadMany_loop E this 0 [] (map Obj (take k reqs)) w0 =
              (Completed (take k outs), wk) \<and>
            downloadOne E this (opt_url (reqs ! k))
              \<lparr>opt_path = Some (case opt_path (reqs ! k) of None \<Rightarrow> '''' | Some p \<Rightarrow> p),
                 opt_fileName =
                   Some (case opt_fileName (reqs ! k) of None \<Rightarrow> ''file'' | Some f \<Rightarrow> f),
                 opt_downloadNumber = Some (k + 1),
                 opt_fileNamingStrategy = None\<rparr> wk =
              (Resolved (outs ! k), wk')))"
proof -
  define w0 where "w0 = w @ [ConsoleMessagesNormal
                   (''Starting download of '' @ string_of_nat (length reqs) @ '' file'' @
                    (if length reqs > 1 then ''s'' else '''') @ ''.'')]"
  let ?returned = "fst (downloadMany E this (map Obj reqs) w)"
  obtain l w1 where loop: "downloadMany_loop E this 0 [] (map Obj reqs) w0 = (l, w1)"
    by (cases "downloadMany_loop E this 0 [] (map Obj reqs) w0")
  have nt: "l \<noteq> Thrown e r" for e r
    using loop loop_not_Thrown[of E this 0 "[]" reqs w0 e r w1] by auto
  have ret: "?returned = (case l of Completed r \<Rightarrow> Resolved r | Thrown e r \<Rightarrow> Resolved r
      | Stuck \<Rightarrow> Pending)"
    using loop unfolding downloadMany_def w0_def
    by (simp add: Let_def split: loop_result.splits)
  have a: "?returned \<noteq> Rejected e" for e
    unfolding ret by (simp split: loop_result.splits)
  have b: "\<exists>outs. ?returned = Resolved outs" if "settles_always E"
    using loop_completes[OF that, of this 0 "[]" reqs w0] loop unfolding ret by auto
  have c: "length outs = length reqs \<and>
         (\<exists>w1. downloadMany_loop E this 0 [] (map Obj reqs) w0 = (Completed outs, w1)) \<and>
         (\<forall>k<length reqs. \<exists>wk wk'.
            downloadMany_loop E this 0 [] (map Obj (take k reqs)) w0 =
              (Completed (take k outs), wk) \<and>
            downloadOne E this (opt_url (reqs ! k))
              \<lparr>opt_path = Some (case opt_path (reqs ! k) of None \<Rightarrow> '''' | Some p \<Rightarrow> p),
                 opt_fileName =
                   Some (case opt_fileName (reqs ! k) of None \<Rightarrow> ''file'' | Some f \<Rightarrow> f),
                 opt_downloadNumber = Some (k + 1),
                 opt_fileNamingStrategy = None\<rparr> wk =
              (Resolved (outs ! k), wk'))"
    if "?returned = Resolved outs" for outs
  proof -
    from that nt have "l = Completed outs" unfolding ret by (cases l) auto
    with loop have all: "downloadMany_loop E this 0 [] (map Obj reqs) w0 = (Completed outs, w1)"
      by simp
    have "length outs = length reqs" using loop_Completed[OF all] by auto
    with all completed_positions[OF all] show ?thesis by blast
  qed
  from a b c show ?thesis unfolding Let_def w0_def by blast
qed

theorem downloadMany_one_outcome_per_request_witness:
  "settles_always example_env \<and>
   fst (downloadMany example_env \<lparr>timeout = 5000, this_fileNamingStrategy = ''counter''\<rparr>
     (map Obj
       [\<lparr>opt_path = Some ''./new'', opt_fileName = Some ''c.txt'', opt_downloadNumber = None,
           opt_fileNamingStrategy = None, opt_url = ''http://host/a.txt''\<rparr>,
        \<lparr>opt_path = Some ''./new'', opt_fileName = Some ''c.txt'', opt_downloadNumber = None,
           opt_fileNamingStrategy = None, opt_url = ''http://host/cut''\<rparr>,
        \<lparr>opt_path = Some ''./new'', opt_fileName = Some ''c.txt'', opt_downloadNumber = None,
           opt_fileNamingStrategy = None, opt_url = ''http://host/a.txt''\<rparr>]) []) =
   Resolved
     [Success ''./new/c.txt'',
      Failure (DownloadFailedError ''Download failed for URL: http://host/cut''
                 ''http://host/cut'' ''./new/c-(1).txt'' (Error ''aborted'')),
      Success ''./new/c-(2).txt''] \<and>
   (\<exists>outs. fst (downloadMany example_env
                  \<lparr>timeout = 5000, this_fileNamingStrategy = ''counter''\<rparr>
     (map Obj
       [\<lparr>opt_path = Some ''./new'', opt_fileName = Some ''c.txt'', opt_downloadNumber = None,
           opt_fileNamingStrategy = None, opt_url = ''http://host/a.txt''\<rparr>,
        \<lparr>opt_path = Some ''./new'', opt_fileName = Some ''c.txt'', opt_downloadNumber = None,
           opt_fileNamingStrategy = None, opt_url = ''http://host/cut''\<rparr>,
        \<lparr>opt_path = Some ''./new'', opt_fileName = Some ''c.txt'', opt_downloadNumber = None,
           opt_fileNamingStrategy = None, opt_url = ''http://host/a.txt''\<rparr>]) []) = Resolved outs \<and>
      length outs = 3)"
proof -
  let ?reqs = "[\<lparr>opt_path = Some ''./new'', opt_fileName = Some ''c.txt'', opt_downloadNumber = None,
           opt_fileNamingStrategy = None, opt_url = ''http://host/a.txt''\<rparr>,
        \<lparr>opt_path = Some ''./new'', opt_fileName = Some ''c.txt'', opt_downloadNumber = None,
           opt_fileNamingStrategy = None, opt_url = ''http://host/cut''\<rparr>,
        \<lparr>opt_path = Some ''./new'', opt_fileName = Some ''c.txt'', opt_downloadNumber = None,
           opt_fileNamingStrategy = None, opt_url = ''http://host/a.txt''\<rparr>]"
  have ev: "fst (downloadMany example_env \<lparr>timeout = 5000, this_fileNamingStrategy = ''counter''\<rparr>
     (map Obj ?reqs) []) =
   Resolved
     [Success ''./new/c.txt'',
      Failure (DownloadFailedError ''Download failed for URL: http://host/cut''
                 ''http://host/cut'' ''./new/c-(1).txt'' (Error ''aborted'')),
      Success ''./new/c-(2).txt'']"
    by (simp add: example_eval)
  have "\<exists>outs. fst (downloadMany example_env
                  \<lparr>timeout = 5000, this_fileNamingStrategy = ''counter''\<rparr>
                  (map Obj ?reqs) []) = Resolved outs \<and> length outs = length ?reqs"
    using downloadMany_one_outcome_per_request[where E = example_env and w = "[]"
        and reqs = ?reqs and this = "\<lparr>timeout = 5000, this_fileNamingStrategy = ''counter''\<rparr>"]
      example_env_settles
    unfolding Let_def by blast
  then show ?thesis using example_env_settles ev by simp
qed

text \<open>
  Claim C6. Whenever the loop of \<^verbatim>\<open>downloadMany\<close> throws, \<^verbatim>\<open>downloadMany\<close> resolves
  to the outcomes collected so far and writes one error line; it does not reject. The loop
  itself throws when it destructures an argument that is \<^verbatim>\<open>null\<close> or
  \<^verbatim>\<open>undefined\<close>: if the requests before such an argument run to completion with
  outcomes \<open>outs\<close>, then \<^verbatim>\<open>downloadMany\<close> resolves to exactly \<open>outs\<close>, one per request
  before the bad argument, and the arguments after it are not attempted.
\<close>

theorem downloadMany_returns_collected_outcomes:
  "let w0 = w @ [ConsoleMessagesNormal
                   (''Starting download of '' @ string_of_nat (length downloadOptions) @
                    '' file'' @ (if length downloadOptions > 1 then ''s'' else '''') @ ''.'')]
   in (\<forall>error results w1.
         downloadMany_loop E this 0 [] downloadOptions w0 = (Thrown error results, w1) \<longrightarrow>
         downloadMany E this downloadOptions w =
           (Resolved results,
            w1 @ [ConsoleMessagesError (''Error in batch download: '' @ message error)])) \<and>
      (\<forall>reqs bad rest outs w1.
         downloadOptions = map Obj reqs @ bad # rest \<and> (bad = Null \<or> bad = Undefined) \<and>
         downloadMany_loop E this 0 [] (map Obj reqs) w0 = (Completed outs, w1) \<longrightarrow>
         length outs = length reqs \<and>
         (\<exists>error. downloadMany_loop E this 0 [] downloadOptions w0 = (Thrown error outs, w1) \<and>
            downloadMany E this downloadOptions w =
              (Resolved outs,
               w1 @ [ConsoleMessagesError (''Error in batch download: '' @ message error)])))"
proof -
  define w0 where "w0 = w @ [ConsoleMessagesNormal
                   (''Starting download of '' @ string_of_nat (length downloadOptions) @
                    '' file'' @ (if length downloadOptions > 1 then ''s'' else '''') @ ''.'')]"
  have thrown: "downloadMany E this downloadOptions w =
      (Resolved results, w1 @ [ConsoleMessagesError (''Error in batch download: '' @ message error)])"
    if "downloadMany_loop E this 0 [] downloadOptions w0 = (Thrown error results, w1)"
    for error results w1
    using that unfolding downloadMany_def w0_def by (simp add: Let_def)
  have prefix: "length outs = length reqs \<and>
      (\<exists>error. downloadMany_loop E this 0 [] downloadOptions w0 = (Thrown error outs, w1) \<and>
         downloadMany E this downloadOptions w =
           (Resolved outs,
            w1 @ [ConsoleMessagesError (''Error in batch download: '' @ message error)]))"
    if opts: "downloadOptions = map Obj reqs @ bad # rest" and bad: "bad = Null \<or> bad = Undefined"
      and pre: "downloadMany_loop E this 0 [] (map Obj reqs) w0 = (Completed outs, w1)"
    for reqs bad rest outs w1
  proof -
    have len: "length outs = length reqs" using loop_Completed[OF pre] by auto
    have "downloadMany_loop E this 0 [] downloadOptions w0 =
        downloadMany_loop E this (length reqs) outs (bad # rest) w1"
      unfolding opts using loop_append[OF pre, of "bad # rest"] by simp
    with bad obtain error where
      t: "downloadMany_loop E this 0 [] downloadOptions w0 = (Thrown error outs, w1)"
      by auto
    from len t thrown[OF t] show ?thesis by blast
  qed
  from thrown prefix show ?thesis unfolding Let_def w0_def by blast
qed

theorem downloadMany_returns_collected_outcomes_witness:
  "downloadMany example_env \<lparr>timeout = 5000, this_fileNamingStrategy = ''counter''\<rparr>
     [Obj \<lparr>opt_path = Some ''./new'', opt_fileName = Some ''c.txt'', opt_downloadNumber = None,
            opt_fileNamingStrategy = None, opt_url = ''http://host/a.txt''\<rparr>,
      Null,
      Obj \<lparr>opt_path = Some ''./new'', opt_fileName = Some ''d.txt'', opt_downloadNumber = None,
            opt_fileNamingStrategy = None, opt_url = ''http://host/a.txt''\<rparr>] [] =
   (Resolved [Success ''./new/c.txt''],
    [ConsoleMessagesNormal ''Starting download of 3 files.'',
     AxiosGet ''http://host/a.txt'' 5000, MakeDir ''./new'', BarStart ''2.00'' 1,
     CreateWriteStream ''./new/c.txt'', BarUpdate 0 ''0.00'' ''Infinity'',
     BarUpdate 2 ''133.33'' ''0s'', BarStop,
     ConsoleMessagesSucces
       (''Download completed.'' @ [CHR 0x0A] @ ''File saved at: '' @ [CHR 0x27] @
        ''./new/c.txt'' @ [CHR 0x27]),
     ConsoleMessagesError
       (''Error in batch download: Cannot destructure property '' @ [CHR 0x27] @ ''url'' @
        [CHR 0x27] @ '' of '' @ [CHR 0x27] @ ''options'' @ [CHR 0x27] @ '' as it is null.'')])"
proof -
  let ?r = "\<lparr>opt_path = Some ''./new'', opt_fileName = Some ''c.txt'', opt_downloadNumber = None,
            opt_fileNamingStrategy = None, opt_url = ''http://host/a.txt''\<rparr>"
  let ?r' = "\<lparr>opt_path = Some ''./new'', opt_fileName = Some ''d.txt'', opt_downloadNumber = None,
            opt_fileNamingStrategy = None, opt_url = ''http://host/a.txt''\<rparr>"
  let ?dl = "\<lparr>timeout = 5000, this_fileNamingStrategy = ''counter''\<rparr>"
  let ?w1 = "[ConsoleMessagesNormal ''Starting download of 3 files.'',
     AxiosGet ''http://host/a.txt'' 5000, MakeDir ''./new'', BarStart ''2.00'' 1,
     CreateWriteStream ''./new/c.txt'', BarUpdate 0 ''0.00'' ''Infinity'',
     BarUpdate 2 ''133.33'' ''0s'', BarStop,
     ConsoleMessagesSucces
       (''Download completed.'' @ [CHR 0x0A] @ ''File saved at: '' @ [CHR 0x27] @
        ''./new/c.txt'' @ [CHR 0x27])]"
  have pre: "downloadMany_loop example_env ?dl 0 [] (map Obj [?r])
      [ConsoleMessagesNormal ''Starting download of 3 files.''] =
      (Completed [Success ''./new/c.txt''], ?w1)"
    by (simp add: example_eval)
  have w0: "[] @ [ConsoleMessagesNormal
                   (''Starting download of '' @ string_of_nat (length [Obj ?r, Null, Obj ?r']) @
                    '' file'' @ (if length [Obj ?r, Null, Obj ?r'] > 1 then ''s'' else '''') @ ''.'')] =
      [ConsoleMessagesNormal ''Starting download of 3 files.'']"
    by (simp add: string_of_nat.simps digit_char_def)
  note T = downloadMany_returns_collected_outcomes[of "[]" "[Obj ?r, Null, Obj ?r']" example_env ?dl,
      unfolded Let_def w0]
  have prem: "[Obj ?r, Null, Obj ?r'] = map Obj [?r] @ Null # [Obj ?r'] \<and>
      (Null = Null \<or> Null = Undefined) \<and>
      downloadMany_loop example_env ?dl 0 [] (map Obj [?r])
        [ConsoleMessagesNormal ''Starting download of 3 files.''] =
        (Completed [Success ''./new/c.txt''], ?w1)"
    using pre by simp
  from T[THEN conjunct2, rule_format, OF prem]
  obtain error where
    t: "downloadMany_loop example_env ?dl 0 [] [Obj ?r, Null, Obj ?r']
          [ConsoleMessagesNormal ''Starting download of 3 files.''] =
        (Thrown error [Success ''./new/c.txt''], ?w1)"
    and d: "downloadMany example_env ?dl [Obj ?r, Null, Obj ?r'] [] =
        (Resolved [Success ''./new/c.txt''],
         ?w1 @ [ConsoleMessagesError (''Error in batch download: '' @ message error)])"
    by blast
  have "downloadMany_loop example_env ?dl 0 [] [Obj ?r, Null, Obj ?r']
          [ConsoleMessagesNormal ''Starting download of 3 files.''] =
        (Thrown (Error (''Cannot destructure property '' @ [CHR 0x27] @ ''url'' @ [CHR 0x27] @
           '' of '' @ [CHR 0x27] @ ''options'' @ [CHR 0x27] @ '' as it is null.''))
           [Success ''./new/c.txt''], ?w1)"
    by (simp add: example_eval)
  with t have "message error = ''Cannot destructure property '' @ [CHR 0x27] @ ''url'' @
      [CHR 0x27] @ '' of '' @ [CHR 0x27] @ ''options'' @ [CHR 0x27] @ '' as it is null.''"
    by simp
  with d show ?thesis by simp
qed





section \<open>The promise of one transfer, as its caller sees it\<close>






end
